theory Spec2Isabelle
  imports Main "HOL-Library.Multiset" "HOL-Library.Sublist"
begin

section \<open>Python strings\<close>

text \<open>
  A Python \<^verbatim>\<open>str\<close> is modelled as the list of its code points, natural numbers up to
  \<^verbatim>\<open>0x10FFFF\<close>.  \<open>ord c\<close> is the code point of a character in Isabelle's notation, and
  \<open>lit s\<close> the \<^verbatim>\<open>str\<close> of a literal.  The character classes below are those of Python on
  all code points.  Files and the terminal are taken to use UTF-8 and texts to hold no
  lone surrogates, so that every text can be written and printed.
\<close>

type_synonym codepoint = nat

type_synonym str = "codepoint list"

abbreviation ord :: "char \<Rightarrow> codepoint" where
  "ord c \<equiv> of_char c"

abbreviation lit :: "char list \<Rightarrow> str" where
  "lit s \<equiv> map of_char s"

abbreviation NL :: codepoint where
  "NL \<equiv> 0x0A"

abbreviation CR :: codepoint where
  "CR \<equiv> 0x0D"

text \<open>
  Whitespace: what \<^verbatim>\<open>\s\<close> matches in a \<^verbatim>\<open>str\<close> pattern and what \<^verbatim>\<open>str.strip()\<close> removes
  (the code points for which \<^verbatim>\<open>str.isspace\<close> holds).
\<close>

definition is_space :: "codepoint \<Rightarrow> bool" where
  "is_space c \<longleftrightarrow>
     c \<in> set [0x09, NL, 0x0B, 0x0C, CR, 0x1C, 0x1D, 0x1E, 0x1F, 0x20, 0x85, 0xA0, 0x1680,
              0x2000, 0x2001, 0x2002, 0x2003, 0x2004, 0x2005, 0x2006, 0x2007, 0x2008, 0x2009,
              0x200A, 0x2028, 0x2029, 0x202F, 0x205F, 0x3000]"

text \<open>
  Word characters: what \<^verbatim>\<open>\w\<close> matches in a \<^verbatim>\<open>str\<close> pattern, the underscore and the code
  points for which \<^verbatim>\<open>str.isalnum\<close> holds.  Below 256 these are written out; from 256 on
  they are those of the Unicode database of the interpreter, the parameter \<open>alnum\<close>.
\<close>

definition is_word :: "(codepoint \<Rightarrow> bool) \<Rightarrow> codepoint \<Rightarrow> bool" where
  "is_word alnum n \<longleftrightarrow>
     (if n < 256 then
        (48 \<le> n \<and> n \<le> 57) \<or> (65 \<le> n \<and> n \<le> 90) \<or> n = 95 \<or> (97 \<le> n \<and> n \<le> 122) \<or>
        n = 170 \<or> n = 178 \<or> n = 179 \<or> n = 181 \<or> n = 185 \<or> n = 186 \<or>
        n = 188 \<or> n = 189 \<or> n = 190 \<or> (192 \<le> n \<and> n \<noteq> 215 \<and> n \<noteq> 247)
      else alnum n)"

text \<open>\<^verbatim>\<open>s.startswith(p)\<close> and \<^verbatim>\<open>s.endswith(p)\<close>.\<close>

definition starts_with :: "'a list \<Rightarrow> 'a list \<Rightarrow> bool" where
  "starts_with p s \<longleftrightarrow> take (length p) s = p"

definition ends_with :: "'a list \<Rightarrow> 'a list \<Rightarrow> bool" where
  "ends_with p s \<longleftrightarrow> length p \<le> length s \<and> drop (length s - length p) s = p"

text \<open>\<^verbatim>\<open>sub in s\<close> for two strings.\<close>

fun contains :: "str \<Rightarrow> str \<Rightarrow> bool" where
  "contains sub [] = (sub = [])"
| "contains sub (c # cs) = (starts_with sub (c # cs) \<or> contains sub cs)"

text \<open>\<^verbatim>\<open>s.replace(old, new, 1)\<close>: the first occurrence of \<open>old\<close>, if any, is replaced.\<close>

fun replace_first :: "str \<Rightarrow> str \<Rightarrow> str \<Rightarrow> str" where
  "replace_first old new [] = (if old = [] then new else [])"
| "replace_first old new (c # cs) =
     (if starts_with old (c # cs) then new @ drop (length old) (c # cs)
      else c # replace_first old new cs)"

text \<open>
  \<^verbatim>\<open>s.splitlines(keepends=True)\<close>.  A line ends at a line feed, a carriage return (taking
  a following line feed with it), a vertical tab, a form feed, a file, group or record
  separator, a next-line character, a line separator (\<^verbatim>\<open>U+2028\<close>) or a paragraph
  separator (\<^verbatim>\<open>U+2029\<close>); the terminator stays with its line.
\<close>

definition is_linebreak :: "codepoint \<Rightarrow> bool" where
  "is_linebreak c \<longleftrightarrow>
     c \<in> set [NL, CR, 0x0B, 0x0C, 0x1C, 0x1D, 0x1E, 0x85, 0x2028, 0x2029]"

fun splitlines :: "str \<Rightarrow> str list" where
  "splitlines [] = []"
| "splitlines [c] = [[c]]"
| "splitlines (c # d # ds) =
     (if c = CR \<and> d = NL then [c, d] # splitlines ds
      else if is_linebreak c then [c] # splitlines (d # ds)
      else (case splitlines (d # ds) of
              [] \<Rightarrow> [[c]]
            | l # ls \<Rightarrow> (c # l) # ls))"

text \<open>
  Reading a file in text mode translates \<^verbatim>\<open>\r\n\<close> and a lone \<^verbatim>\<open>\r\<close> to \<^verbatim>\<open>\n\<close>
  (universal newlines, the default of \<^verbatim>\<open>Path.read_text\<close>).
\<close>

fun universal_newlines :: "str \<Rightarrow> str" where
  "universal_newlines [] = []"
| "universal_newlines [c] = (if c = CR then [NL] else [c])"
| "universal_newlines (c # d # ds) =
     (if c = CR \<and> d = NL then NL # universal_newlines ds
      else if c = CR then NL # universal_newlines (d # ds)
      else c # universal_newlines (d # ds))"

text \<open>\<^verbatim>\<open>s.strip()\<close>.\<close>

definition strip :: "str \<Rightarrow> str" where
  "strip s = rev (dropWhile is_space (rev (dropWhile is_space s)))"

text \<open>Decimal rendering of integers, as \<^verbatim>\<open>str(n)\<close> and f-strings produce it.\<close>

definition digit_char :: "nat \<Rightarrow> codepoint" where
  "digit_char d = (lit ''0123456789'') ! (d mod 10)"

fun string_of_nat :: "nat \<Rightarrow> str" where
  "string_of_nat n =
     (if n < 10 then [digit_char n]
      else string_of_nat (n div 10) @ [digit_char (n mod 10)])"

declare string_of_nat.simps [simp del]

definition string_of_int :: "int \<Rightarrow> str" where
  "string_of_int i = (if i < 0 then ord (CHR ''-'') # string_of_nat (nat (- i)) else string_of_nat (nat i))"

text \<open>
  \<^verbatim>\<open>xs[a:b]\<close> for integers \<open>a\<close> and \<open>b\<close>: a negative index counts from the end, and both
  are clamped to the list.
\<close>

definition py_index :: "nat \<Rightarrow> int \<Rightarrow> nat" where
  "py_index n i = (if i < 0 then nat (int n + i) else min n (nat i))"

definition py_slice :: "int \<Rightarrow> int \<Rightarrow> 'a list \<Rightarrow> 'a list" where
  "py_slice a b xs =
     (let i = py_index (length xs) a; j = py_index (length xs) b
      in take (j - i) (drop i xs))"

text \<open>The number of bytes of the UTF-8 encoding of a text.\<close>

definition utf8_len :: "str \<Rightarrow> nat" where
  "utf8_len s =
     sum_list (map (\<lambda>c. if c < 0x80 then 1 else if c < 0x800 then 2
                         else if c < 0x10000 then 3 else 4) s)"

section \<open>Values exchanged with the model: decoded JSON\<close>

text \<open>
  Tool calls, chat responses and tool results are Python dictionaries obtained from
  \<^verbatim>\<open>json.loads\<close> or built by the code.  A decoded JSON value is modelled by the datatype
  below; an object keeps its entries as an association list in insertion order (the
  first entry for a key is the one a lookup finds).  JSON numbers are restricted to
  integers.
\<close>

datatype json =
    JNull
  | JBool bool
  | JInt int
  | JStr str
  | JList "json list"
  | JObj "(str \<times> json) list"

text \<open>Python truthiness of a decoded value (\<^verbatim>\<open>if x:\<close>, \<^verbatim>\<open>not x\<close>, \<^verbatim>\<open>x or y\<close>).\<close>

fun truthy :: "json \<Rightarrow> bool" where
  "truthy JNull = False"
| "truthy (JBool b) = b"
| "truthy (JInt n) = (n \<noteq> 0)"
| "truthy (JStr s) = (s \<noteq> [])"
| "truthy (JList xs) = (xs \<noteq> [])"
| "truthy (JObj kvs) = (kvs \<noteq> [])"

text \<open>\<^verbatim>\<open>d.get(k, default)\<close> on a dictionary.\<close>

definition dget :: "(str \<times> json) list \<Rightarrow> str \<Rightarrow> json \<Rightarrow> json" where
  "dget d k dflt = (case map_of d k of None \<Rightarrow> dflt | Some v \<Rightarrow> v)"

section \<open>Conversation messages and context trimming\<close>

text \<open>A message is the dictionary \<^verbatim>\<open>{"role": ..., "content": ...}\<close>.\<close>

record message =
  role :: str
  mcontent :: json

definition MAX_CONTEXT_MESSAGES :: nat where
  "MAX_CONTEXT_MESSAGES = 40"

definition MAX_FILE_SIZE :: nat where
  "MAX_FILE_SIZE = 500000"

definition MAX_TOOL_LOOPS :: nat where
  "MAX_TOOL_LOOPS = 15"

text \<open>
  \<^verbatim>\<open>xs[-k:]\<close> for an integer \<open>k\<close>: for \<open>k > 0\<close> the last \<open>k\<close> elements
  (all of them when the list is shorter); \<^verbatim>\<open>xs[0:]\<close> is the whole list; for \<open>k < 0\<close>
  the slice starts at index \<open>-k\<close>.
\<close>

definition last_slice :: "int \<Rightarrow> 'a list \<Rightarrow> 'a list" where
  "last_slice k xs =
     (if k > 0 then drop (length xs - nat k) xs
      else drop (nat (- k)) xs)"

text \<open>
  \<^verbatim>\<open>
  def trim_context(messages, max_msgs=MAX_CONTEXT_MESSAGES):
      if len(messages) <= max_msgs:
          return messages
      system = [m for m in messages if m.get("role") == "system"]
      others = [m for m in messages if m.get("role") != "system"]
      keep = max(max_msgs - len(system), 2)
      return system + others[-keep:]
  \<close>
\<close>

definition trim_context :: "message list \<Rightarrow> nat \<Rightarrow> message list" where
  "trim_context messages max_msgs =
     (if length messages \<le> max_msgs then messages
      else
        let system = filter (\<lambda>m. role m = lit ''system'') messages;
            others = filter (\<lambda>m. role m \<noteq> lit ''system'') messages;
            keep = max (int max_msgs - int (length system)) 2
        in system @ last_slice keep others)"

section \<open>Exceptions\<close>

text \<open>
  A Python exception is a value; a computation that may raise returns \<open>exn + 'a\<close>, with
  \<open>Inl\<close> for the exception.  \<open>OSError\<close> stands for the operating-system errors that are
  neither \<^verbatim>\<open>PermissionError\<close> nor \<^verbatim>\<open>IsADirectoryError\<close>, and \<open>ValueError\<close> for a
  \<^verbatim>\<open>ValueError\<close> that is not a \<^verbatim>\<open>JSONDecodeError\<close>.
\<close>

datatype exn =
    TypeError
  | AttributeError
  | ValueError
  | KeyError
  | IndexError
  | JSONDecodeError
  | RecursionError
  | PermissionError
  | IsADirectoryError
  | OSError
  | TimeoutExpired
  | RequestTimeout
  | RequestConnectionError
  | OtherException

text \<open>\<^verbatim>\<open>except OSError\<close> also catches the subclasses of \<^verbatim>\<open>OSError\<close>.\<close>

definition is_OSError :: "exn \<Rightarrow> bool" where
  "is_OSError e \<longleftrightarrow> e = PermissionError \<or> e = IsADirectoryError \<or> e = OSError"

section \<open>Tool extraction\<close>

text \<open>
  \<^verbatim>\<open>extract_tool_calls\<close> scans the text with three regular expressions (all with
  \<^verbatim>\<open>re.DOTALL\<close>) and decodes each captured group with \<^verbatim>\<open>json.loads\<close>.  The decoder and
  the serialiser \<^verbatim>\<open>json.dumps(_, sort_keys=True)\<close> belong to Python's library; they are
  parameters here, each returning \<open>Inl e\<close> where Python raises \<open>e\<close>: the decoder raises
  \<^verbatim>\<open>JSONDecodeError\<close> on a text that is not JSON, and also \<^verbatim>\<open>RecursionError\<close> on a text
  nested too deeply and \<^verbatim>\<open>ValueError\<close> on an integer of more digits than the interpreter
  converts.

  The three patterns are matched by the functions below, written out from the regular
  expressions.  In each of them the lazy \<^verbatim>\<open>.+?\<close> consumes one character and then stops at
  the first closing brace after which the remainder of the pattern matches.
\<close>

abbreviation DQ :: codepoint where
  "DQ \<equiv> 0x22"

abbreviation BQ :: codepoint where
  "BQ \<equiv> 0x60"

text \<open>
  \<open>find_close ok s\<close>: the text after the first \<^verbatim>\<open>}\<close> of \<open>s\<close> whose following text satisfies
  \<open>ok\<close>.
\<close>

fun find_close :: "(str \<Rightarrow> bool) \<Rightarrow> str \<Rightarrow> str option" where
  "find_close ok [] = None"
| "find_close ok (c # cs) = (if c = ord (CHR ''}'') \<and> ok cs then Some cs else find_close ok cs)"

text \<open>
  The common tail \<^verbatim>\<open>\s*(\{.+?\})\s*CLOSER\<close> of the first two patterns: the captured group
  and the text after the whole match.
\<close>

definition closes_with :: "str \<Rightarrow> str \<Rightarrow> bool" where
  "closes_with closer t \<longleftrightarrow> starts_with closer (dropWhile is_space t)"

definition match_group :: "str \<Rightarrow> str \<Rightarrow> (str \<times> str) option" where
  "match_group closer s =
     (case dropWhile is_space s of
        c # d # rest \<Rightarrow>
          if c = ord (CHR ''{'') then
            (case find_close (closes_with closer) rest of
               None \<Rightarrow> None
             | Some t \<Rightarrow>
                 Some (take (length (c # d # rest) - length t) (c # d # rest),
                       drop (length closer) (dropWhile is_space t)))
          else None
      | _ \<Rightarrow> None)"

text \<open>Pattern 1: \<^verbatim>\<open>```(?:json)?\s*(\{.+?\})\s*```\<close>.\<close>

definition fence :: str where
  "fence = [BQ, BQ, BQ]"

definition match_fence :: "str \<Rightarrow> (str \<times> str) option" where
  "match_fence s =
     (if starts_with fence s then
        match_group fence (let t = drop 3 s in if starts_with (lit ''json'') t then drop 4 t else t)
      else None)"

text \<open>Pattern 2: \<^verbatim>\<open><tool>\s*(\{.+?\})\s*</tool>\<close>.\<close>

definition match_tag :: "str \<Rightarrow> (str \<times> str) option" where
  "match_tag s =
     (if starts_with (lit ''<tool>'') s then match_group (lit ''</tool>'') (drop 6 s) else None)"

text \<open>
  Pattern 3: \<^verbatim>\<open>(?<![`\w])(\{"tool"\s*:\s*"[^"]+".+?\})(?![`\w])\<close>.  The look-behind reads
  the character before the match (none at the start of the text), the look-ahead the
  character after it (none at the end).
\<close>

definition not_tick_or_word :: "(codepoint \<Rightarrow> bool) \<Rightarrow> codepoint option \<Rightarrow> bool" where
  "not_tick_or_word alnum x =
     (case x of None \<Rightarrow> True | Some c \<Rightarrow> \<not> (c = BQ \<or> is_word alnum c))"

definition lookahead_ok :: "(codepoint \<Rightarrow> bool) \<Rightarrow> str \<Rightarrow> bool" where
  "lookahead_ok alnum t = not_tick_or_word alnum (case t of [] \<Rightarrow> None | c # _ \<Rightarrow> Some c)"

definition tool_key_open :: str where
  "tool_key_open = ord (CHR ''{'') # DQ # lit ''tool'' @ [DQ]"

definition match_bare :: "(codepoint \<Rightarrow> bool) \<Rightarrow> str \<Rightarrow> (str \<times> str) option" where
  "match_bare alnum s =
     (if starts_with tool_key_open s then
        (case dropWhile is_space (drop 7 s) of
           [] \<Rightarrow> None
         | colon # t2 \<Rightarrow>
             if colon = ord (CHR '':'') then
               (case dropWhile is_space t2 of
                  [] \<Rightarrow> None
                | q # t3 \<Rightarrow>
                    if q = DQ \<and> takeWhile (\<lambda>c. c \<noteq> DQ) t3 \<noteq> [] then
                      (case dropWhile (\<lambda>c. c \<noteq> DQ) t3 of
                         q2 # d # t5 \<Rightarrow>
                           (case find_close (lookahead_ok alnum) t5 of
                              None \<Rightarrow> None
                            | Some t \<Rightarrow> Some (take (length s - length t) s, t))
                       | _ \<Rightarrow> None)
                    else None)
             else None)
      else None)"

text \<open>
  \<^verbatim>\<open>re.finditer\<close>: the matches from left to right, each search resuming where the previous
  match ended.  \<open>prev\<close> is the character before the current position and \<open>skip\<close> the
  number of characters of the last match still to pass.
\<close>

fun finditer ::
  "(codepoint option \<Rightarrow> str \<Rightarrow> (str \<times> str) option) \<Rightarrow> codepoint option \<Rightarrow> nat \<Rightarrow> str
     \<Rightarrow> str list" where
  "finditer m prev skip [] = []"
| "finditer m prev skip (c # cs) =
     (if skip > 0 then finditer m (Some c) (skip - 1) cs
      else case m prev (c # cs) of
             None \<Rightarrow> finditer m (Some c) 0 cs
           | Some (g, rest) \<Rightarrow> g # finditer m (Some c) (length cs - length rest) cs)"

definition fenced_groups :: "str \<Rightarrow> str list" where
  "fenced_groups s = finditer (\<lambda>prev. match_fence) None 0 s"

definition tagged_groups :: "str \<Rightarrow> str list" where
  "tagged_groups s = finditer (\<lambda>prev. match_tag) None 0 s"

definition bare_groups :: "(codepoint \<Rightarrow> bool) \<Rightarrow> str \<Rightarrow> str list" where
  "bare_groups alnum s =
     finditer (\<lambda>prev t. if not_tick_or_word alnum prev then match_bare alnum t else None)
       None 0 s"

text \<open>
  The brace balancing of pattern 3:
  \<^verbatim>\<open>
  depth = 0
  end = 0
  for i, c in enumerate(candidate):
      if c == '{':
          depth += 1
      elif c == '}':
          depth -= 1
          if depth == 0:
              end = i + 1
              break
  \<close>
\<close>

fun balance_end :: "int \<Rightarrow> nat \<Rightarrow> str \<Rightarrow> nat" where
  "balance_end depth i [] = 0"
| "balance_end depth i (c # cs) =
     (if c = ord (CHR ''{'') then balance_end (depth + 1) (i + 1) cs
      else if c = ord (CHR ''}'') then
        (if depth - 1 = 0 then i + 1 else balance_end (depth - 1) (i + 1) cs)
      else balance_end depth (i + 1) cs)"

text \<open>
  A loop \<^verbatim>\<open>for x in xs: ...\<close> whose body may raise: the state after the last element, or
  the first exception raised.
\<close>

fun for_each :: "('s \<Rightarrow> 'a \<Rightarrow> exn + 's) \<Rightarrow> 's \<Rightarrow> 'a list \<Rightarrow> exn + 's" where
  "for_each f st [] = Inr st"
| "for_each f st (x # xs) = (case f st x of Inl e \<Rightarrow> Inl e | Inr st' \<Rightarrow> for_each f st' xs)"

text \<open>
  \<^verbatim>\<open>
  def add_tool(data):
      if isinstance(data, dict) and data.get("tool"):
          key = json.dumps(data, sort_keys=True)
          if key not in seen:
              seen.add(key)
              tools.append(data)
  \<close>
  The state is the pair of \<open>tools\<close> and the keys \<open>seen\<close>.  The serialiser is called for every
  dictionary with a truthy \<^verbatim>\<open>tool\<close> entry, and an exception it raises leaves \<^verbatim>\<open>add_tool\<close>.
\<close>

definition add_tool ::
  "(json \<Rightarrow> exn + str) \<Rightarrow> json \<Rightarrow> json list \<times> str list
     \<Rightarrow> exn + json list \<times> str list" where
  "add_tool dumps data st =
     (case data of
        JObj d \<Rightarrow>
          if truthy (dget d (lit ''tool'') JNull) then
            (case dumps data of
               Inl e \<Rightarrow> Inl e
             | Inr key \<Rightarrow>
                 Inr (if key \<in> set (snd st) then st else (fst st @ [data], snd st @ [key])))
          else Inr st
      | _ \<Rightarrow> Inr st)"

text \<open>
  \<^verbatim>\<open>
  try:
      add_tool(json.loads(m.group(1)))
  except json.JSONDecodeError:
      pass
  \<close>
  Only \<^verbatim>\<open>JSONDecodeError\<close> is caught, then the state is what it was; any other exception
  of the decoder or the serialiser leaves the loop and \<^verbatim>\<open>extract_tool_calls\<close>.
\<close>

definition except_JSONDecodeError :: "'s \<Rightarrow> exn + 's \<Rightarrow> exn + 's" where
  "except_JSONDecodeError st r =
     (case r of
        Inl e \<Rightarrow> if e = JSONDecodeError then Inr st else Inl e
      | Inr st' \<Rightarrow> Inr st')"

definition try_add ::
  "(str \<Rightarrow> exn + json) \<Rightarrow> (json \<Rightarrow> exn + str) \<Rightarrow> json list \<times> str list \<Rightarrow> str
     \<Rightarrow> exn + json list \<times> str list" where
  "try_add loads dumps st g =
     except_JSONDecodeError st
       (case loads g of Inl e \<Rightarrow> Inl e | Inr data \<Rightarrow> add_tool dumps data st)"

definition try_add_balanced ::
  "(str \<Rightarrow> exn + json) \<Rightarrow> (json \<Rightarrow> exn + str) \<Rightarrow> json list \<times> str list \<Rightarrow> str
     \<Rightarrow> exn + json list \<times> str list" where
  "try_add_balanced loads dumps st candidate =
     (let e = balance_end 0 0 candidate
      in if e > 0 then try_add loads dumps st (take e candidate) else Inr st)"

definition extract_tool_calls ::
  "(codepoint \<Rightarrow> bool) \<Rightarrow> (str \<Rightarrow> exn + json) \<Rightarrow> (json \<Rightarrow> exn + str) \<Rightarrow> str
     \<Rightarrow> exn + json list" where
  "extract_tool_calls alnum loads dumps text =
     (if text = [] then Inr []
      else
        case for_each (try_add loads dumps) ([], []) (fenced_groups text) of
          Inl e \<Rightarrow> Inl e
        | Inr st1 \<Rightarrow>
            (case for_each (try_add loads dumps) st1 (tagged_groups text) of
               Inl e \<Rightarrow> Inl e
             | Inr st2 \<Rightarrow>
                 if fst st2 = [] then
                   (case for_each (try_add_balanced loads dumps) st2 (bare_groups alnum text) of
                      Inl e \<Rightarrow> Inl e
                    | Inr st3 \<Rightarrow> Inr (fst st3))
                 else Inr (fst st2)))"

section \<open>The file system and the environment\<close>

text \<open>
  A file has a size in bytes (\<^verbatim>\<open>st_size\<close>), its text as decoded with
  \<^verbatim>\<open>errors='replace'\<close>, and the permissions of the running process on it.  A path, once
  resolved, names a directory, a file or nothing.
\<close>

record fileinfo =
  st_size :: nat
  stored :: str
  readable :: bool
  writable :: bool

datatype node = Dir | File fileinfo

type_synonym filesystem = "str \<Rightarrow> node option"

type_synonym result = "(str \<times> json) list"

text \<open>The outcome of \<^verbatim>\<open>subprocess.run\<close>: a completed process, or an exception.\<close>

datatype proc = Completed str str int | Raised exn

text \<open>The answer of the user to a permission prompt (\<open>Cancelled\<close>: the menu was left with
  escape, \<^verbatim>\<open>arrow_select\<close> returns \<^verbatim>\<open>None\<close>).\<close>

datatype choice = Yes | Trust | No | Cancelled

text \<open>A response of the remote endpoint to one request, or the exception \<^verbatim>\<open>requests.post\<close>
  raised.  \<open>body\<close> is what \<^verbatim>\<open>r.json()\<close> decodes, \<open>None\<close> where it raises
  \<^verbatim>\<open>JSONDecodeError\<close>.\<close>

record response =
  http_ok :: bool
  status_code :: int
  body :: "json option"

text \<open>
  What the code takes from Python's library, the operating system and the network is
  collected in one record of parameters:
  \<^item> \<open>isalnum\<close>: \<^verbatim>\<open>str.isalnum\<close> on a code point from 256 on;
  \<^item> \<open>repr\<close>: \<^verbatim>\<open>str(v)\<close> for a list or a dictionary;
  \<^item> \<open>exc_str\<close>: \<^verbatim>\<open>str(e)\<close> for an exception;
  \<^item> \<open>resolve\<close>: \<^verbatim>\<open>str(Path(s).expanduser().resolve())\<close>;
  \<^item> \<open>int_of_str\<close>: \<^verbatim>\<open>int(s)\<close> for a string, \<open>None\<close> where it raises \<^verbatim>\<open>ValueError\<close>;
  \<^item> \<open>mkdir_parents\<close>: \<^verbatim>\<open>p.parent.mkdir(parents=True, exist_ok=True)\<close>;
  \<^item> \<open>create_error\<close>, \<open>unlink_error\<close>: the exception, if any, of creating or removing
    the entry \<open>p\<close> in its directory;
  \<^item> \<open>shell\<close>: \<^verbatim>\<open>subprocess.run(cmd, shell=True, ..., timeout=timeout, cwd=Path.home())\<close>,
    with its effect on the file system;
  \<^item> \<open>readonly_tool\<close>: the handlers \<^verbatim>\<open>list_dir\<close> and \<^verbatim>\<open>search_file\<close>, which only read;
  \<^item> \<open>todo_tool\<close>: the function \<^verbatim>\<open>todo_tool(action, tasks, indices, title)\<close> on the global
    \<^verbatim>\<open>session_todo\<close>;
  \<^item> \<open>loads\<close>, \<open>dumps\<close>: \<^verbatim>\<open>json.loads\<close> and \<^verbatim>\<open>json.dumps(_, sort_keys=True)\<close>, with \<open>Inl e\<close>
    where they raise \<open>e\<close>;
  \<^item> \<open>post\<close>: \<^verbatim>\<open>requests.post\<close> to the completion endpoint with the key at the given
    index: the number of the attempt, the key and the messages.
\<close>

record env =
  isalnum :: "codepoint \<Rightarrow> bool"
  repr :: "json \<Rightarrow> str"
  exc_str :: "exn \<Rightarrow> str"
  resolve :: "str \<Rightarrow> str"
  int_of_str :: "str \<Rightarrow> int option"
  mkdir_parents :: "filesystem \<Rightarrow> str \<Rightarrow> exn + filesystem"
  create_error :: "filesystem \<Rightarrow> str \<Rightarrow> exn option"
  unlink_error :: "filesystem \<Rightarrow> str \<Rightarrow> exn option"
  shell :: "json \<Rightarrow> json \<Rightarrow> filesystem \<Rightarrow> proc \<times> filesystem"
  readonly_tool :: "str \<Rightarrow> filesystem \<Rightarrow> (str \<times> json) list \<Rightarrow> exn + result"
  todo_tool :: "json \<Rightarrow> json \<Rightarrow> json \<Rightarrow> json \<Rightarrow> json \<Rightarrow> (exn + result) \<times> json"
  loads :: "str \<Rightarrow> exn + json"
  dumps :: "json \<Rightarrow> exn + str"
  post :: "nat \<Rightarrow> str \<Rightarrow> message list \<Rightarrow> exn + response"

text \<open>\<^verbatim>\<open>str(v)\<close> and the formatting of \<open>v\<close> in an f-string.\<close>

definition py_str :: "env \<Rightarrow> json \<Rightarrow> str" where
  "py_str env v =
     (case v of
        JStr s \<Rightarrow> s
      | JInt n \<Rightarrow> string_of_int n
      | JBool b \<Rightarrow> (if b then lit ''True'' else lit ''False'')
      | JNull \<Rightarrow> lit ''None''
      | _ \<Rightarrow> repr env v)"

text \<open>\<^verbatim>\<open>int(v)\<close>.\<close>

definition py_int :: "env \<Rightarrow> json \<Rightarrow> exn + int" where
  "py_int env v =
     (case v of
        JInt n \<Rightarrow> Inr n
      | JBool b \<Rightarrow> Inr (if b then 1 else 0)
      | JStr s \<Rightarrow> (case int_of_str env s of None \<Rightarrow> Inl ValueError | Some n \<Rightarrow> Inr n)
      | _ \<Rightarrow> Inl TypeError)"

text \<open>The integer a value stands for in arithmetic and comparisons, if it is a number.\<close>

definition py_num :: "json \<Rightarrow> int option" where
  "py_num v = (case v of JInt n \<Rightarrow> Some n | JBool b \<Rightarrow> Some (if b then 1 else 0) | _ \<Rightarrow> None)"

text \<open>\<^verbatim>\<open>for x in v\<close>: the elements of a list, the characters of a string, the keys of a
  dictionary; other values are not iterable.\<close>

definition py_iter :: "json \<Rightarrow> exn + json list" where
  "py_iter v =
     (case v of
        JList xs \<Rightarrow> Inr xs
      | JStr s \<Rightarrow> Inr (map (\<lambda>c. JStr [c]) s)
      | JObj d \<Rightarrow> Inr (map (\<lambda>kv. JStr (fst kv)) d)
      | _ \<Rightarrow> Inl TypeError)"

text \<open>\<^verbatim>\<open>Path(path).expanduser().resolve()\<close> for a truthy \<open>path\<close>: a string is required.\<close>

definition to_path :: "env \<Rightarrow> json \<Rightarrow> exn + str" where
  "to_path env path = (case path of JStr s \<Rightarrow> Inr (resolve env s) | _ \<Rightarrow> Inl TypeError)"

text \<open>\<^verbatim>\<open>p.read_text(errors='replace')\<close> and \<^verbatim>\<open>p.write_text(s)\<close>.\<close>

definition read_text :: "filesystem \<Rightarrow> str \<Rightarrow> exn + str" where
  "read_text fs p =
     (case fs p of
        None \<Rightarrow> Inl OSError
      | Some Dir \<Rightarrow> Inl IsADirectoryError
      | Some (File f) \<Rightarrow> if readable f then Inr (universal_newlines (stored f)) else Inl PermissionError)"

definition write_text :: "env \<Rightarrow> filesystem \<Rightarrow> str \<Rightarrow> str \<Rightarrow> exn + filesystem" where
  "write_text env fs p s =
     (case fs p of
        None \<Rightarrow>
          (case create_error env fs p of
             Some e \<Rightarrow> Inl e
           | None \<Rightarrow>
               Inr (fs(p \<mapsto> File \<lparr>st_size = utf8_len s, stored = s, readable = True, writable = True\<rparr>)))
      | Some Dir \<Rightarrow> Inl IsADirectoryError
      | Some (File f) \<Rightarrow>
          if writable f then Inr (fs(p \<mapsto> File (f\<lparr>st_size := utf8_len s, stored := s\<rparr>)))
          else Inl PermissionError)"

text \<open>The dictionaries \<^verbatim>\<open>{"ok": False, "error": msg}\<close> and \<^verbatim>\<open>{"ok": True, "result": msg}\<close>.\<close>

definition failure :: "str \<Rightarrow> result" where
  "failure msg = [(lit ''ok'', JBool False), (lit ''error'', JStr msg)]"

definition success :: "str \<Rightarrow> result" where
  "success msg = [(lit ''ok'', JBool True), (lit ''result'', JStr msg)]"

section \<open>The tool handlers\<close>

text \<open>
  Each branch of \<^verbatim>\<open>_execute_tool_inner\<close> is one definition.  A handler that can change the
  file system returns its outcome together with the file system it leaves; an outcome
  \<open>Inl e\<close> is the exception \<open>e\<close> leaving the handler.
\<close>

definition intelligent_mode_msg :: str where
  "intelligent_mode_msg =
     lit ''File > 400KB. Intelligent Mode: Use '' @ [0x27] @ lit ''search_file'' @ [0x27] @
     lit '' to locate relevant code, then '' @ [0x27] @ lit ''read_file'' @ [0x27] @
     lit '' with start_line/end_line to read specific sections.''"

definition read_file :: "env \<Rightarrow> filesystem \<Rightarrow> (str \<times> json) list \<Rightarrow> exn + result" where
  "read_file env fs call =
     (let path = dget call (lit ''path'') (JStr []) in
      if \<not> truthy path then Inr (failure (lit ''No path''))
      else
        case to_path env path of
          Inl e \<Rightarrow> Inl e
        | Inr p \<Rightarrow>
            (case fs p of
               None \<Rightarrow> Inr (failure (lit ''Not found: '' @ p))
             | Some Dir \<Rightarrow> Inr (failure (lit ''Is directory: '' @ p))
             | Some (File f) \<Rightarrow>
                 let start_line = dget call (lit ''start_line'') JNull;
                     end_line = dget call (lit ''end_line'') JNull;
                     size = st_size f
                 in
                   if size > 400000 \<and> start_line = JNull then Inr (failure intelligent_mode_msg)
                   else if \<not> readable f then Inr (failure (lit ''Permission denied: '' @ p))
                   else
                     let content = universal_newlines (stored f);
                         lines = splitlines content
                     in
                       if start_line \<noteq> JNull then
                         (case py_int env start_line of
                            Inl e \<Rightarrow> Inl e
                          | Inr sl \<Rightarrow>
                              (case (if end_line \<noteq> JNull then
                                       (case py_int env end_line of
                                          Inl e \<Rightarrow> Inl e
                                        | Inr el \<Rightarrow> Inr (min (int (length lines)) el))
                                     else Inr (int (length lines))) of
                                 Inl e \<Rightarrow> Inl e
                               | Inr stop \<Rightarrow>
                                   let start = max 0 (sl - 1) in
                                   if start \<ge> int (length lines) then
                                     Inr (failure (lit ''Start line '' @ py_str env start_line @
                                            lit '' out of range (max '' @
                                            string_of_nat (length lines) @ lit '')''))
                                   else
                                     Inr [(lit ''ok'', JBool True),
                                          (lit ''result'', JStr (concat (py_slice start stop lines))),
                                          (lit ''lines'',
                                           JStr (string_of_int (start + 1) @ lit ''-'' @
                                                 string_of_int stop))]))
                       else if size > MAX_FILE_SIZE then
                         Inr [(lit ''ok'', JBool True),
                              (lit ''result'', JStr (take MAX_FILE_SIZE content)),
                              (lit ''truncated'', JBool True),
                              (lit ''size'', JInt (int size))]
                       else Inr (success content)))"

text \<open>The two handlers of \<^verbatim>\<open>write_file\<close>: \<^verbatim>\<open>except PermissionError\<close>, then
  \<^verbatim>\<open>except OSError as e\<close>.\<close>

definition write_failed :: "env \<Rightarrow> str \<Rightarrow> exn \<Rightarrow> exn + result" where
  "write_failed env p e =
     (if e = PermissionError then Inr (failure (lit ''Permission denied: '' @ p))
      else if is_OSError e then Inr (failure (lit ''Write failed: '' @ exc_str env e))
      else Inl e)"

definition write_file ::
  "env \<Rightarrow> filesystem \<Rightarrow> (str \<times> json) list \<Rightarrow> (exn + result) \<times> filesystem" where
  "write_file env fs call =
     (let path = dget call (lit ''path'') (JStr []) in
      if \<not> truthy path then (Inr (failure (lit ''No path'')), fs)
      else
        let content = dget call (lit ''content'') JNull in
        if content = JNull then (Inr (failure (lit ''No content'')), fs)
        else
          case to_path env path of
            Inl e \<Rightarrow> (Inl e, fs)
          | Inr p \<Rightarrow>
              (case mkdir_parents env fs p of
                 Inl e \<Rightarrow> (write_failed env p e, fs)
               | Inr fs1 \<Rightarrow>
                   (case write_text env fs1 p (py_str env content) of
                      Inl e \<Rightarrow> (write_failed env p e, fs1)
                    | Inr fs2 \<Rightarrow>
                        (Inr (success (lit ''Written: '' @ p @ lit '' ('' @
                                string_of_nat (length (py_str env content)) @ lit '' bytes)'')),
                         fs2))))"

text \<open>
  The loop of \<^verbatim>\<open>edit_file\<close>:
  \<^verbatim>\<open>
  for e in edits:
      if not isinstance(e, dict):
          continue
      find = e.get("find", "")
      if find and find in content:
          content = content.replace(find, str(e.get("replace", "")), 1)
          changes += 1
  \<close>
  \<^verbatim>\<open>find in content\<close> raises \<^verbatim>\<open>TypeError\<close> when \<open>find\<close> is not a string.
\<close>

fun apply_edits :: "env \<Rightarrow> json list \<Rightarrow> str \<times> nat \<Rightarrow> exn + (str \<times> nat)" where
  "apply_edits env [] st = Inr st"
| "apply_edits env (e # es) (content, changes) =
     (case e of
        JObj d \<Rightarrow>
          (let find = dget d (lit ''find'') (JStr []) in
           if \<not> truthy find then apply_edits env es (content, changes)
           else
             case find of
               JStr f \<Rightarrow>
                 if contains f content then
                   apply_edits env es
                     (replace_first f (py_str env (dget d (lit ''replace'') (JStr []))) content,
                      changes + 1)
                 else apply_edits env es (content, changes)
             | _ \<Rightarrow> Inl TypeError)
      | _ \<Rightarrow> apply_edits env es (content, changes))"

definition edit_file ::
  "env \<Rightarrow> filesystem \<Rightarrow> (str \<times> json) list \<Rightarrow> (exn + result) \<times> filesystem" where
  "edit_file env fs call =
     (let path = dget call (lit ''path'') (JStr []) in
      if \<not> truthy path then (Inr (failure (lit ''No path'')), fs)
      else
        case to_path env path of
          Inl e \<Rightarrow> (Inl e, fs)
        | Inr p \<Rightarrow>
            if fs p = None then (Inr (failure (lit ''Not found: '' @ p)), fs)
            else
              let edits = dget call (lit ''edits'') (JList []) in
              if \<not> truthy edits then (Inr (failure (lit ''No edits'')), fs)
              else
                case read_text fs p of
                  Inl e \<Rightarrow>
                    (if e = PermissionError then Inr (failure (lit ''Permission denied: '' @ p))
                     else Inl e, fs)
                | Inr content \<Rightarrow>
                    (case py_iter edits of
                       Inl e \<Rightarrow> (Inl e, fs)
                     | Inr es \<Rightarrow>
                         (case apply_edits env es (content, 0) of
                            Inl e \<Rightarrow> (Inl e, fs)
                          | Inr (content', changes) \<Rightarrow>
                              if changes = 0 then (Inr (failure (lit ''No matches found'')), fs)
                              else
                                (case write_text env fs p content' of
                                   Inl e \<Rightarrow>
                                     (if e = PermissionError then
                                        Inr (failure (lit ''Permission denied: '' @ p))
                                      else Inl e, fs)
                                 | Inr fs' \<Rightarrow>
                                     (Inr (success (lit ''Edited: '' @ p @ lit '' ('' @
                                             string_of_nat changes @ lit '' changes)'')),
                                      fs')))))"

text \<open>
  \<^verbatim>\<open>patch_file\<close>.  The patches are sorted by
  \<^verbatim>\<open>sorted(patches, key=lambda x: x.get("line", 0), reverse=True)\<close>: the key function raises
  \<^verbatim>\<open>AttributeError\<close> on a patch that is not a dictionary; keys that are not numbers end
  in a \<^verbatim>\<open>TypeError\<close> (from the comparison, or from \<^verbatim>\<open>patch.get("line", 0) - 1\<close> in the
  first round of the loop) before any line is changed.  The sort is stable, also with
  \<^verbatim>\<open>reverse=True\<close>: patches with the same line number keep the order of the call.
\<close>

definition line_key :: "(str \<times> json) list \<Rightarrow> int" where
  "line_key d = (case py_num (dget d (lit ''line'') (JInt 0)) of None \<Rightarrow> 0 | Some n \<Rightarrow> n)"

definition the_dict :: "json \<Rightarrow> (str \<times> json) list" where
  "the_dict v = (case v of JObj d \<Rightarrow> d | _ \<Rightarrow> [])"

definition is_dict :: "json \<Rightarrow> bool" where
  "is_dict v = (case v of JObj d \<Rightarrow> True | _ \<Rightarrow> False)"

definition sorted_patches :: "json list \<Rightarrow> exn + (str \<times> json) list list" where
  "sorted_patches ps =
     (if \<not> list_all is_dict ps then Inl AttributeError
      else if \<not> list_all (\<lambda>p. py_num (dget (the_dict p) (lit ''line'') (JInt 0)) \<noteq> None) ps
        then Inl TypeError
      else Inr (sort_key (\<lambda>d. - line_key d) (map the_dict ps)))"

text \<open>
  One round of the loop over the sorted patches, on the list \<open>lines\<close> and the counter
  \<open>changes\<close>:
  \<^verbatim>\<open>
  line_num = patch.get("line", 0) - 1
  action = patch.get("action", "replace")
  pcontent = patch.get("content", "")
  if pcontent and not pcontent.endswith("\n"):
      pcontent += "\n"
  if action == "delete":
      if 0 <= line_num < len(lines):
          lines.pop(line_num)
          changes += 1
  elif 0 <= line_num < len(lines):
      if action == "replace":
          lines[line_num] = pcontent
          changes += 1
      elif action == "insert_after":
          lines.insert(line_num + 1, pcontent)
          changes += 1
      elif action == "insert_before":
          lines.insert(line_num, pcontent)
          changes += 1
  elif action in ("insert_after", "insert_before") and line_num == len(lines):
      lines.append(pcontent)
      changes += 1
  \<close>
  The list holds strings, and whatever falsy value a patch gave as its content.
\<close>

definition normalize_pcontent :: "json \<Rightarrow> exn + json" where
  "normalize_pcontent pcontent =
     (if truthy pcontent then
        (case pcontent of
           JStr s \<Rightarrow> Inr (JStr (if ends_with [NL] s then s else s @ [NL]))
         | _ \<Rightarrow> Inl AttributeError)
      else Inr pcontent)"

definition apply_patch ::
  "(str \<times> json) list \<Rightarrow> json list \<times> nat \<Rightarrow> exn + (json list \<times> nat)" where
  "apply_patch patch st =
     (let lines = fst st; changes = snd st in
      case py_num (dget patch (lit ''line'') (JInt 0)) of
        None \<Rightarrow> Inl TypeError
      | Some ln \<Rightarrow>
          let line_num = ln - 1;
              action = dget patch (lit ''action'') (JStr (lit ''replace''))
          in
            case normalize_pcontent (dget patch (lit ''content'') (JStr [])) of
              Inl e \<Rightarrow> Inl e
            | Inr pcontent \<Rightarrow>
                let n = int (length lines); i = nat line_num in
                if action = JStr (lit ''delete'') then
                  (if 0 \<le> line_num \<and> line_num < n then
                     Inr (take i lines @ drop (Suc i) lines, changes + 1)
                   else Inr (lines, changes))
                else if 0 \<le> line_num \<and> line_num < n then
                  (if action = JStr (lit ''replace'') then Inr (lines[i := pcontent], changes + 1)
                   else if action = JStr (lit ''insert_after'') then
                     Inr (take (Suc i) lines @ pcontent # drop (Suc i) lines, changes + 1)
                   else if action = JStr (lit ''insert_before'') then
                     Inr (take i lines @ pcontent # drop i lines, changes + 1)
                   else Inr (lines, changes))
                else if (action = JStr (lit ''insert_after'') \<or> action = JStr (lit ''insert_before''))
                        \<and> line_num = n then
                  Inr (lines @ [pcontent], changes + 1)
                else Inr (lines, changes))"

fun apply_patches ::
  "(str \<times> json) list list \<Rightarrow> json list \<times> nat \<Rightarrow> exn + (json list \<times> nat)" where
  "apply_patches [] st = Inr st"
| "apply_patches (p # ps) st =
     (case apply_patch p st of Inl e \<Rightarrow> Inl e | Inr st' \<Rightarrow> apply_patches ps st')"

text \<open>
  \<^verbatim>\<open>
  lines = content.splitlines(keepends=True)
  if lines and not lines[-1].endswith('\n'):
      lines[-1] += '\n'
  \<close>
\<close>

definition patch_lines :: "str \<Rightarrow> str list" where
  "patch_lines content =
     (let lines = splitlines content in
      if lines \<noteq> [] \<and> \<not> ends_with [NL] (last lines) then butlast lines @ [last lines @ [NL]]
      else lines)"

text \<open>\<^verbatim>\<open>"".join(lines)\<close>: every element must be a string.\<close>

definition the_str :: "json \<Rightarrow> str" where
  "the_str v = (case v of JStr s \<Rightarrow> s | _ \<Rightarrow> [])"

definition is_str :: "json \<Rightarrow> bool" where
  "is_str v = (case v of JStr s \<Rightarrow> True | _ \<Rightarrow> False)"

definition join_lines :: "json list \<Rightarrow> exn + str" where
  "join_lines lines =
     (if list_all is_str lines then Inr (concat (map the_str lines)) else Inl TypeError)"

definition patch_file ::
  "env \<Rightarrow> filesystem \<Rightarrow> (str \<times> json) list \<Rightarrow> (exn + result) \<times> filesystem" where
  "patch_file env fs call =
     (let path = dget call (lit ''path'') (JStr []) in
      if \<not> truthy path then (Inr (failure (lit ''No path'')), fs)
      else
        case to_path env path of
          Inl e \<Rightarrow> (Inl e, fs)
        | Inr p \<Rightarrow>
            if fs p = None then (Inr (failure (lit ''Not found: '' @ p)), fs)
            else
              let patches = dget call (lit ''patches'') (JList []) in
              if \<not> truthy patches then (Inr (failure (lit ''No patches'')), fs)
              else
                case read_text fs p of
                  Inl e \<Rightarrow>
                    (if e = PermissionError then Inr (failure (lit ''Permission denied: '' @ p))
                     else Inl e, fs)
                | Inr content \<Rightarrow>
                    (case py_iter patches of
                       Inl e \<Rightarrow> (Inl e, fs)
                     | Inr ps \<Rightarrow>
                         (case sorted_patches ps of
                            Inl e \<Rightarrow> (Inl e, fs)
                          | Inr sorted_ps \<Rightarrow>
                              (case apply_patches sorted_ps (map JStr (patch_lines content), 0) of
                                 Inl e \<Rightarrow> (Inl e, fs)
                               | Inr (lines, changes) \<Rightarrow>
                                   (case join_lines lines of
                                      Inl e \<Rightarrow> (Inl e, fs)
                                    | Inr new_content \<Rightarrow>
                                        (case write_text env fs p new_content of
                                           Inl e \<Rightarrow>
                                             (if e = PermissionError then
                                                Inr (failure (lit ''Permission denied: '' @ p))
                                              else Inl e, fs)
                                         | Inr fs' \<Rightarrow>
                                             (Inr (success (lit ''Patched: '' @ p @ lit '' ('' @
                                                     string_of_nat changes @ lit '' changes)'')),
                                              fs')))))))"

definition delete_file ::
  "env \<Rightarrow> filesystem \<Rightarrow> (str \<times> json) list \<Rightarrow> (exn + result) \<times> filesystem" where
  "delete_file env fs call =
     (let path = dget call (lit ''path'') (JStr []) in
      if \<not> truthy path then (Inr (failure (lit ''No path'')), fs)
      else
        case to_path env path of
          Inl e \<Rightarrow> (Inl e, fs)
        | Inr p \<Rightarrow>
            (case fs p of
               None \<Rightarrow> (Inr (failure (lit ''Not found: '' @ p)), fs)
             | Some Dir \<Rightarrow> (Inr (failure (lit ''Cannot delete directory'')), fs)
             | Some (File f) \<Rightarrow>
                 (case unlink_error env fs p of
                    Some e \<Rightarrow>
                      (if e = PermissionError then Inr (failure (lit ''Permission denied: '' @ p))
                       else Inl e, fs)
                  | None \<Rightarrow> (Inr (success (lit ''Deleted: '' @ p)), fs(p := None)))))"

section \<open>The session, the permission gate and the executor\<close>

text \<open>
  The state the executor works on: the file system, the global \<^verbatim>\<open>trust_session\<close>, the
  answers the user will give to the permission prompts still to come (none left: the
  input has ended, which \<^verbatim>\<open>arrow_select\<close> treats as escape), the global
  \<^verbatim>\<open>session_todo\<close>, and the commands handed to the shell so far.
\<close>

record session =
  files :: filesystem
  trust_session :: bool
  answers :: "choice list"
  session_todo :: json
  commands_run :: "json list"

text \<open>
  \<^verbatim>\<open>
  def permission_prompt(action, target=None):
      global trust_session
      if trust_session:
          return True
      idx, choice = arrow_select([("Yes", "Allow"), ("Trust", "Allow all"), ("No", "Deny")], ...)
      if choice == "Trust":
          trust_session = True
          return True
      return choice == "Yes"
  \<close>
\<close>

definition permission_prompt :: "session \<Rightarrow> bool \<times> session" where
  "permission_prompt st =
     (if trust_session st then (True, st)
      else
        case answers st of
          [] \<Rightarrow> (False, st)
        | a # rest \<Rightarrow>
            (case a of
               Trust \<Rightarrow> (True, st\<lparr>answers := rest, trust_session := True\<rparr>)
             | Yes \<Rightarrow> (True, st\<lparr>answers := rest\<rparr>)
             | _ \<Rightarrow> (False, st\<lparr>answers := rest\<rparr>)))"

text \<open>
  \<^verbatim>\<open>min(call.get("timeout", 60), 120)\<close>: an integer is capped, a boolean (below 120 as a
  number) is returned as it is, any other value cannot be compared with 120.
\<close>

definition py_timeout :: "json \<Rightarrow> exn + json" where
  "py_timeout v =
     (case v of
        JInt n \<Rightarrow> Inr (JInt (min n 120))
      | JBool b \<Rightarrow> Inr (JBool b)
      | _ \<Rightarrow> Inl TypeError)"

definition run_command ::
  "env \<Rightarrow> session \<Rightarrow> (str \<times> json) list \<Rightarrow> (exn + result) \<times> session" where
  "run_command env st call =
     (let cmd = dget call (lit ''command'') (JStr []) in
      if \<not> truthy cmd then (Inr (failure (lit ''No command'')), st)
      else
        case py_timeout (dget call (lit ''timeout'') (JInt 60)) of
          Inl e \<Rightarrow> (Inl e, st)
        | Inr timeout \<Rightarrow>
            (case shell env cmd timeout (files st) of
               (r, fs') \<Rightarrow>
                 let st' = st\<lparr>files := fs', commands_run := commands_run st @ [cmd]\<rparr> in
                 (case r of
                    Raised e \<Rightarrow>
                      (if e = TimeoutExpired then
                         Inr (failure (lit ''Timeout ('' @ py_str env timeout @ lit ''s)''))
                       else if is_OSError e then
                         Inr (failure (lit ''Command failed: '' @ exc_str env e))
                       else Inl e, st')
                  | Completed out err returncode \<Rightarrow>
                      let output = strip (out @ err);
                          output = (if length output > 10000
                                    then take 10000 output @ NL # lit ''... (truncated)''
                                    else output)
                      in (Inr [(lit ''ok'', JBool (returncode = 0)),
                               (lit ''result'', JStr (if output = [] then lit ''(no output)'' else output)),
                               (lit ''code'', JInt returncode)], st'))))"

text \<open>A handler on the file system, run on the session.\<close>

definition on_files ::
  "(filesystem \<Rightarrow> (exn + result) \<times> filesystem) \<Rightarrow> session \<Rightarrow> (exn + result) \<times> session" where
  "on_files h st = (case h (files st) of (r, fs') \<Rightarrow> (r, st\<lparr>files := fs'\<rparr>))"

text \<open>
  \<^verbatim>\<open>_execute_tool_inner(tool, call)\<close>: the chain of \<^verbatim>\<open>if tool == ...\<close>, in the order of the
  source, ending in \<^verbatim>\<open>{"ok": False, "error": f"Unknown tool: {tool}"}\<close>.
\<close>

definition execute_tool_inner ::
  "env \<Rightarrow> session \<Rightarrow> json \<Rightarrow> (str \<times> json) list \<Rightarrow> (exn + result) \<times> session" where
  "execute_tool_inner env st tool call =
     (if tool = JStr (lit ''read_file'') then (read_file env (files st) call, st)
      else if tool = JStr (lit ''write_file'') then on_files (\<lambda>fs. write_file env fs call) st
      else if tool = JStr (lit ''edit_file'') then on_files (\<lambda>fs. edit_file env fs call) st
      else if tool = JStr (lit ''patch_file'') then on_files (\<lambda>fs. patch_file env fs call) st
      else if tool = JStr (lit ''run_command'') then run_command env st call
      else if tool = JStr (lit ''list_dir'') then (readonly_tool env (lit ''list_dir'') (files st) call, st)
      else if tool = JStr (lit ''search_file'') then
        (readonly_tool env (lit ''search_file'') (files st) call, st)
      else if tool = JStr (lit ''delete_file'') then on_files (\<lambda>fs. delete_file env fs call) st
      else if tool = JStr (lit ''todo'') then
        (case todo_tool env (dget call (lit ''action'') (JStr [])) (dget call (lit ''tasks'') (JList []))
                (dget call (lit ''indices'') (JList [])) (dget call (lit ''title'') (JStr []))
                (session_todo st) of
           (r, todo') \<Rightarrow> (r, st\<lparr>session_todo := todo'\<rparr>))
      else (Inr (failure (lit ''Unknown tool: '' @ py_str env tool)), st))"

text \<open>
  \<^verbatim>\<open>call.get("command", "")[:60]\<close>: a string or a list is sliced; no other value can be
  subscripted with a slice.
\<close>

definition slice60 :: "json \<Rightarrow> exn + json" where
  "slice60 v =
     (case v of
        JStr s \<Rightarrow> Inr (JStr (take 60 s))
      | JList xs \<Rightarrow> Inr (JList (take 60 xs))
      | _ \<Rightarrow> Inl TypeError)"

definition destructive_tools :: "json list" where
  "destructive_tools =
     [JStr (lit ''delete_file''), JStr (lit ''write_file''), JStr (lit ''edit_file''), JStr (lit ''patch_file''),
      JStr (lit ''run_command'')]"

text \<open>
  \<^verbatim>\<open>
  def execute_tool(call):
      if not isinstance(call, dict):
          return {"ok": False, "error": "Invalid tool format"}
      tool = call.get("tool", "")
      path = call.get("path", "")
      destructive = tool in ("delete_file", "write_file", "edit_file", "patch_file", "run_command")
      if destructive:
          target = path or call.get("command", "")[:60]
          if not permission_prompt(f"{tool}", target):
              return {"ok": False, "error": "Denied by user", "tool": tool}
      try:
          result = _execute_tool_inner(tool, call)
          return result
      except Exception as e:
          return {"ok": False, "error": str(e), "tool": tool}
  \<close>
  The result \<open>Inl e\<close> is the exception \<open>e\<close> raised to the caller of \<^verbatim>\<open>execute_tool\<close>.
\<close>

definition guarded_inner ::
  "env \<Rightarrow> session \<Rightarrow> json \<Rightarrow> (str \<times> json) list \<Rightarrow> (exn + result) \<times> session" where
  "guarded_inner env st tool call =
     (case execute_tool_inner env st tool call of
        (Inl e, st') \<Rightarrow> (Inr (failure (exc_str env e) @ [(lit ''tool'', tool)]), st')
      | (Inr r, st') \<Rightarrow> (Inr r, st'))"

definition execute_tool :: "env \<Rightarrow> session \<Rightarrow> json \<Rightarrow> (exn + result) \<times> session" where
  "execute_tool env st c =
     (case c of
        JObj call \<Rightarrow>
          (let tool = dget call (lit ''tool'') (JStr []);
               path = dget call (lit ''path'') (JStr [])
           in
             if tool \<in> set destructive_tools then
               (case (if truthy path then Inr path
                      else slice60 (dget call (lit ''command'') (JStr []))) of
                  Inl e \<Rightarrow> (Inl e, st)
                | Inr target \<Rightarrow>
                    (case permission_prompt st of
                       (False, st') \<Rightarrow>
                         (Inr (failure (lit ''Denied by user'') @ [(lit ''tool'', tool)]), st')
                     | (True, st') \<Rightarrow> guarded_inner env st' tool call))
             else guarded_inner env st tool call)
      | _ \<Rightarrow> (Inr (failure (lit ''Invalid tool format'')), st))"

section \<open>The chat backends\<close>

text \<open>\<^verbatim>\<open>sep.join(xs)\<close>.\<close>

fun join :: "str \<Rightarrow> str list \<Rightarrow> str" where
  "join sep [] = []"
| "join sep [x] = x"
| "join sep (x # y # ys) = x @ sep @ join sep (y # ys)"

text \<open>The settings as \<^verbatim>\<open>load_settings\<close> returns them, with the two experiment flags that
  \<^verbatim>\<open>chat_poe\<close> reads.\<close>

record settings =
  mode :: str
  model_key :: str
  ollama_model :: str
  reasoning :: bool
  verbose :: bool

text \<open>\<^verbatim>\<open>MODELS.get(model_key, ("GPT-5.1-Codex-Mini",))[0]\<close>.\<close>

definition MODELS :: "(str \<times> str) list" where
  "MODELS =
     [(lit ''codex'', lit ''GPT-5.2-Codex''), (lit ''grok'', lit ''Grok-4.1-Fast-Reasoning''),
      (lit ''haiku'', lit ''Claude-Haiku-4.5''), (lit ''gpt'', lit ''GPT-5.2-Instant''),
      (lit ''sonnet'', lit ''Claude-Sonnet-4.5''), (lit ''opus'', lit ''Claude-Opus-4.5''),
      (lit ''gemini'', lit ''Gemini-3-Pro'')]"

definition model_name :: "str \<Rightarrow> str" where
  "model_name k = (case map_of MODELS k of None \<Rightarrow> lit ''GPT-5.1-Codex-Mini'' | Some m \<Rightarrow> m)"

text \<open>\<^verbatim>\<open>estimate_tokens(text)\<close>: \<^verbatim>\<open>len(text) // 4 if text else 0\<close>.\<close>

definition estimate_tokens :: "json \<Rightarrow> exn + nat" where
  "estimate_tokens v =
     (if \<not> truthy v then Inr 0
      else
        case v of
          JStr s \<Rightarrow> Inr (length s div 4)
        | JList xs \<Rightarrow> Inr (length xs div 4)
        | JObj d \<Rightarrow> Inr (length d div 4)
        | _ \<Rightarrow> Inl TypeError)"

text \<open>The reasoning flags of a model key, and the augmentation of the last message when it
  is a user message.\<close>

definition reasoning_flags :: "str \<Rightarrow> str list" where
  "reasoning_flags k =
     (if k = lit ''codex'' \<or> k = lit ''gpt'' then [lit ''--reasoning_effort high'']
      else if k = lit ''opus'' then [lit ''--thinking_budget 24000'', lit ''--web_search true'']
      else if k = lit ''sonnet'' then [lit ''--thinking_budget 16000'', lit ''--web_search true'']
      else if k = lit ''haiku'' then [lit ''--thinking_budget 8000'', lit ''--web_search true'']
      else [])"

definition verbose_prompt :: str where
  "verbose_prompt =
     [NL, NL] @ lit ''[Think carefully. Take your time. Verify your work before responding.]''"

definition augment :: "env \<Rightarrow> settings \<Rightarrow> message list \<Rightarrow> exn + message list" where
  "augment env s msgs =
     (if msgs = [] \<or> role (last msgs) \<noteq> lit ''user'' then Inr msgs
      else
        let m = last msgs;
            flags = reasoning_flags (model_key s);
            m1 = (if reasoning s \<and> flags \<noteq> [] then
                    m\<lparr>mcontent := JStr (py_str env (mcontent m) @ lit '' '' @ join (lit '' '') flags)\<rparr>
                  else m)
        in
          if verbose s then
            (case mcontent m1 of
               JStr c \<Rightarrow> Inr (butlast msgs @ [m1\<lparr>mcontent := JStr (c @ verbose_prompt)\<rparr>])
             | _ \<Rightarrow> Inl TypeError)
          else Inr (butlast msgs @ [m1]))"

text \<open>
  One attempt of \<^verbatim>\<open>chat_poe\<close>, from the answer of \<^verbatim>\<open>requests.post\<close> on: the result
  dictionary of a success, or the error string appended to \<open>errors\<close>.
  \<^verbatim>\<open>
  if r.ok:
      try:
          data = r.json()
          if data.get("choices"):
              content = data["choices"][0].get("message", {}).get("content", "")
              return {"ok": True, "content": content, "model": model, "time": elapsed,
                      "tokens": estimate_tokens(content)}
          errors.append(f"Key {i+1}: Invalid response format")
      except (json.JSONDecodeError, KeyError, IndexError):
          errors.append(f"Key {i+1}: Malformed JSON")
  else:
      errors.append(f"Key {i+1}: HTTP {r.status_code}")
  \<close>
  \<open>read_choice data\<close> is the body of the inner \<^verbatim>\<open>try\<close>: \<open>Inr None\<close> when
  \<^verbatim>\<open>data.get("choices")\<close> is falsy, \<open>Inr (Some (content, tokens))\<close> at the \<^verbatim>\<open>return\<close>, and
  \<open>Inl e\<close> for the exception it raises.  The entry \<^verbatim>\<open>"time"\<close> of the result (wall-clock
  time) is left out.
\<close>

definition first_item :: "json \<Rightarrow> exn + json" where
  "first_item v =
     (case v of
        JList xs \<Rightarrow> (case xs of [] \<Rightarrow> Inl IndexError | x # _ \<Rightarrow> Inr x)
      | JStr s \<Rightarrow> (case s of [] \<Rightarrow> Inl IndexError | c # _ \<Rightarrow> Inr (JStr [c]))
      | JObj d \<Rightarrow> Inl KeyError
      | _ \<Rightarrow> Inl TypeError)"

definition get_of :: "json \<Rightarrow> str \<Rightarrow> json \<Rightarrow> exn + json" where
  "get_of v k dflt = (case v of JObj d \<Rightarrow> Inr (dget d k dflt) | _ \<Rightarrow> Inl AttributeError)"

definition read_choice :: "json \<Rightarrow> exn + (json \<times> nat) option" where
  "read_choice data =
     (case get_of data (lit ''choices'') JNull of
        Inl e \<Rightarrow> Inl e
      | Inr choices \<Rightarrow>
          if \<not> truthy choices then Inr None
          else
            case first_item choices of
              Inl e \<Rightarrow> Inl e
            | Inr c \<Rightarrow>
                (case get_of c (lit ''message'') (JObj []) of
                   Inl e \<Rightarrow> Inl e
                 | Inr m \<Rightarrow>
                     (case get_of m (lit ''content'') (JStr []) of
                        Inl e \<Rightarrow> Inl e
                      | Inr content \<Rightarrow>
                          (case estimate_tokens content of
                             Inl e \<Rightarrow> Inl e
                           | Inr n \<Rightarrow> Inr (Some (content, n))))))"

definition key_label :: "nat \<Rightarrow> str" where
  "key_label i = lit ''Key '' @ string_of_nat (i + 1) @ lit '': ''"

definition attempt :: "env \<Rightarrow> str \<Rightarrow> nat \<Rightarrow> exn + response \<Rightarrow> str + result" where
  "attempt env model i answer =
     (case answer of
        Inl e \<Rightarrow>
          Inl (key_label i @
               (if e = RequestTimeout then lit ''Timeout''
                else if e = RequestConnectionError then lit ''Connection failed''
                else exc_str env e))
      | Inr r \<Rightarrow>
          if http_ok r then
            (case body r of
               None \<Rightarrow> Inl (key_label i @ lit ''Malformed JSON'')
             | Some data \<Rightarrow>
                 (case read_choice data of
                    Inr (Some (content, n)) \<Rightarrow>
                      Inr [(lit ''ok'', JBool True), (lit ''content'', content), (lit ''model'', JStr model),
                           (lit ''tokens'', JInt (int n))]
                  | Inr None \<Rightarrow> Inl (key_label i @ lit ''Invalid response format'')
                  | Inl e \<Rightarrow>
                      if e = JSONDecodeError \<or> e = KeyError \<or> e = IndexError then
                        Inl (key_label i @ lit ''Malformed JSON'')
                      else Inl (key_label i @ exc_str env e)))
          else Inl (key_label i @ lit ''HTTP '' @ string_of_int (status_code r)))"

text \<open>
  The loop \<^verbatim>\<open>for i, key in enumerate(keys)\<close>: it returns at the first success; a failed
  attempt appends its string to \<open>errors\<close> and the next key is tried.  The function returns
  the list \<open>errors\<close> as it stands when the loop is left, beside the result of the success,
  if there was one.
\<close>

fun try_keys ::
  "env \<Rightarrow> str \<Rightarrow> message list \<Rightarrow> nat \<Rightarrow> str list \<Rightarrow> str list
     \<Rightarrow> str list \<times> result option" where
  "try_keys env model msgs i [] errors = (errors, None)"
| "try_keys env model msgs i (key # keys) errors =
     (case attempt env model i (post env i key msgs) of
        Inr r \<Rightarrow> (errors, Some r)
      | Inl err \<Rightarrow> try_keys env model msgs (i + 1) keys (errors @ [err]))"

definition chat_poe :: "env \<Rightarrow> str list \<Rightarrow> settings \<Rightarrow> message list \<Rightarrow> exn + result" where
  "chat_poe env keys s messages =
     (if keys = [] then Inr (failure (lit ''No API keys configured''))
      else
        case augment env s messages of
          Inl e \<Rightarrow> Inl e
        | Inr msgs \<Rightarrow>
            (case try_keys env (model_name (model_key s)) msgs 0 keys [] of
               (errors, Some r) \<Rightarrow> Inr r
             | (errors, None) \<Rightarrow>
                 Inr (failure (if errors \<noteq> [] then join (lit ''; '') (last_slice 3 errors)
                               else lit ''All keys exhausted''))))"

text \<open>
  \<^verbatim>\<open>chat_ollama\<close>: one request to the local endpoint, answered by \<open>post_local\<close>
  (\<^verbatim>\<open>requests.post\<close> with the model name and the messages).
\<close>

definition chat_ollama ::
  "env \<Rightarrow> (str \<Rightarrow> message list \<Rightarrow> exn + response) \<Rightarrow> message list \<Rightarrow> str \<Rightarrow> result" where
  "chat_ollama env post_local messages model =
     (case post_local model messages of
        Inl e \<Rightarrow>
          failure (if e = RequestTimeout then lit ''Timeout''
                   else if e = RequestConnectionError then lit ''Ollama not running (ollama serve)''
                   else exc_str env e)
      | Inr r \<Rightarrow>
          if http_ok r then
            (case body r of
               None \<Rightarrow> failure (lit ''Invalid response from Ollama'')
             | Some d \<Rightarrow>
                 (case get_of d (lit ''message'') (JObj []) of
                    Inl e \<Rightarrow> failure (exc_str env e)
                  | Inr m \<Rightarrow>
                      (case get_of m (lit ''content'') (JStr []) of
                         Inl e \<Rightarrow> failure (exc_str env e)
                       | Inr c \<Rightarrow> [(lit ''ok'', JBool True), (lit ''content'', c)])))
          else failure (lit ''Ollama error: '' @ string_of_int (status_code r)))"

text \<open>The backends a session talks to: the keys \<^verbatim>\<open>load_keys()\<close> returns, the settings, and
  the local endpoint.\<close>

record backend =
  api_keys :: "str list"
  config :: settings
  post_local :: "str \<Rightarrow> message list \<Rightarrow> exn + response"

definition chat :: "env \<Rightarrow> backend \<Rightarrow> message list \<Rightarrow> exn + result" where
  "chat env b messages =
     (if mode (config b) = lit ''local'' then
        Inr (chat_ollama env (post_local b) messages (ollama_model (config b)))
      else chat_poe env (api_keys b) (config b) messages)"

section \<open>The agent loop\<close>

text \<open>
  \<^verbatim>\<open>extract_tool_calls(response)\<close> on the content of a chat result: a falsy value gives no
  tools, a string is scanned, and \<^verbatim>\<open>re.finditer\<close> raises \<^verbatim>\<open>TypeError\<close> on any other value.
\<close>

definition response_tools :: "env \<Rightarrow> json \<Rightarrow> exn + json list" where
  "response_tools env response =
     (if \<not> truthy response then Inr []
      else
        case response of
          JStr s \<Rightarrow> extract_tool_calls (isalnum env) (loads env) (dumps env) s
        | _ \<Rightarrow> Inl TypeError)"

text \<open>
  \<^verbatim>\<open>format_tool_result(tool_result)\<close> is computed for the display only; it raises
  \<^verbatim>\<open>AttributeError\<close> when the result of a successful tool is not a string.
\<close>

definition format_raises :: "result \<Rightarrow> bool" where
  "format_raises r \<longleftrightarrow> truthy (dget r (lit ''ok'') JNull) \<and> \<not> is_str (dget r (lit ''result'') (JStr []))"

text \<open>The entry of \<open>tool_results\<close> for one executed call.\<close>

definition tool_report :: "env \<Rightarrow> json \<Rightarrow> result \<Rightarrow> str" where
  "tool_report env tool_name r =
     (if truthy (dget r (lit ''ok'') JNull) then
        lit ''['' @ py_str env tool_name @ lit ''] Success:'' @ [NL] @ py_str env (dget r (lit ''result'') (JStr []))
      else
        lit ''['' @ py_str env tool_name @ lit ''] Error: '' @ py_str env (dget r (lit ''error'') (JStr (lit ''Failed''))))"

text \<open>
  The loop \<^verbatim>\<open>for tool_call in tools\<close>: each call is executed in turn on the session the
  previous one left; an exception ends the loop with the session as it then stands.
\<close>

fun run_tools ::
  "env \<Rightarrow> session \<Rightarrow> json list \<Rightarrow> str list \<Rightarrow> (exn + str list) \<times> session" where
  "run_tools env st [] tool_results = (Inr tool_results, st)"
| "run_tools env st (tool_call # rest) tool_results =
     (let tool_name = dget (the_dict tool_call) (lit ''tool'') (JStr (lit ''action'')) in
      case execute_tool env st tool_call of
        (Inl e, st') \<Rightarrow> (Inl e, st')
      | (Inr r, st') \<Rightarrow>
          if format_raises r then (Inl AttributeError, st')
          else run_tools env st' rest (tool_results @ [tool_report env tool_name r]))"

text \<open>
  \<^verbatim>\<open>agent_loop\<close>: \<open>agent_iter n\<close> is the loop with \<open>n\<close> rounds left,
  \<^verbatim>\<open>for loop_i in range(MAX_TOOL_LOOPS)\<close> being \<open>agent_iter MAX_TOOL_LOOPS\<close>.  The value
  returned is the list \<^verbatim>\<open>messages\<close>; what is printed is not modelled.
\<close>

fun agent_iter ::
  "env \<Rightarrow> backend \<Rightarrow> nat \<Rightarrow> session \<Rightarrow> message list \<Rightarrow> (exn + message list) \<times> session" where
  "agent_iter env b 0 st messages = (Inr messages, st)"
| "agent_iter env b (Suc n) st messages =
     (let messages = trim_context messages MAX_CONTEXT_MESSAGES in
      case chat env b messages of
        Inl e \<Rightarrow> (Inl e, st)
      | Inr r \<Rightarrow>
          if \<not> truthy (dget r (lit ''ok'') JNull) then (Inr messages, st)
          else
            let response = dget r (lit ''content'') (JStr []) in
            case response_tools env response of
              Inl e \<Rightarrow> (Inl e, st)
            | Inr tools \<Rightarrow>
                if tools \<noteq> [] then
                  (case run_tools env st tools [] of
                     (Inl e, st') \<Rightarrow> (Inl e, st')
                   | (Inr tool_results, st') \<Rightarrow>
                       agent_iter env b n st'
                         (messages @
                          [\<lparr>role = lit ''assistant'', mcontent = response\<rparr>,
                           \<lparr>role = lit ''user'',
                            mcontent = JStr (lit ''Tool results:'' @ [NL] @
                                             join [NL, NL] tool_results)\<rparr>]))
                else (Inr (messages @ [\<lparr>role = lit ''assistant'', mcontent = response\<rparr>]), st))"

definition agent_loop ::
  "env \<Rightarrow> backend \<Rightarrow> session \<Rightarrow> message list \<Rightarrow> (exn + message list) \<times> session" where
  "agent_loop env b st messages = agent_iter env b MAX_TOOL_LOOPS st messages"

declare agent_iter.simps [simp del]

text \<open>The entry of \<open>tool_results\<close> for a call of the tool \<open>name\<close> that was denied.\<close>

definition denial_report :: "str \<Rightarrow> str" where
  "denial_report name = lit ''['' @ name @ lit ''] Error: Denied by user''"

section \<open>The edits of \<^verbatim>\<open>edit_file\<close>, as the specification words them\<close>



section \<open>The patching of \<^verbatim>\<open>patch_file\<close>, in parts\<close>

text \<open>
  The steps of \<^verbatim>\<open>patch_file\<close> between reading and writing, named for the properties below:
  \<open>normalized\<close> is the content of a patch after
  \<^verbatim>\<open>if pcontent and not pcontent.endswith("\n"): pcontent += "\n"\<close>; \<open>patch_loop\<close> is the sort
  followed by the loop, on given lines; \<open>patched_content\<close> is the text written for given
  patches and a given content, with the number of changes.  \<open>nl_only\<close> says that the only
  line-break character of a text is the line feed, and \<open>good_line\<close> that an element of
  \<open>lines\<close>, if it is a string, is empty or ends with a line feed.
\<close>

definition normalized :: "str \<Rightarrow> str" where
  "normalized s = (if ends_with [NL] s then s else s @ [NL])"

definition patch_loop :: "json list \<Rightarrow> str list \<Rightarrow> exn + (json list \<times> nat)" where
  "patch_loop ps lines =
     (case sorted_patches ps of
        Inl e \<Rightarrow> Inl e
      | Inr sorted_ps \<Rightarrow> apply_patches sorted_ps (map JStr lines, 0))"

definition patched_content :: "json \<Rightarrow> str \<Rightarrow> exn + (str \<times> nat)" where
  "patched_content patches content =
     (case py_iter patches of
        Inl e \<Rightarrow> Inl e
      | Inr ps \<Rightarrow>
          (case patch_loop ps (patch_lines content) of
             Inl e \<Rightarrow> Inl e
           | Inr (lines, changes) \<Rightarrow>
               (case join_lines lines of
                  Inl e \<Rightarrow> Inl e
                | Inr new_content \<Rightarrow> Inr (new_content, changes))))"

definition nl_only :: "str \<Rightarrow> bool" where
  "nl_only s \<longleftrightarrow> (\<forall>c\<in>set s. is_linebreak c \<longrightarrow> c = NL)"

definition good_line :: "json \<Rightarrow> bool" where
  "good_line v = (case v of JStr s \<Rightarrow> s = [] \<or> ends_with [NL] s | _ \<Rightarrow> True)"

section \<open>A well-formed choice list, as the specification words it\<close>

text \<open>
  The specification: an attempt succeeds when the response is successful and its body
  holds a well-formed choice list.  In words that can be checked on a body: the body
  decodes to an object whose \<^verbatim>\<open>choices\<close> entry is a non-empty list, whose first element is
  an object, whose \<^verbatim>\<open>message\<close> entry (an empty object when absent) is an object, and whose
  \<^verbatim>\<open>content\<close> entry (the empty string when absent) has a length or is falsy (\<open>sized\<close>: it
  is not a non-zero number and not \<^verbatim>\<open>true\<close>).  This definition follows those words; it is
  compared with \<open>attempt\<close> below.
\<close>

definition sized :: "json \<Rightarrow> bool" where
  "sized v = (case v of JInt n \<Rightarrow> n = 0 | JBool b \<Rightarrow> \<not> b | _ \<Rightarrow> True)"

definition well_formed_body :: "json option \<Rightarrow> bool" where
  "well_formed_body b =
     (case b of
        Some (JObj d) \<Rightarrow>
          (case dget d (lit ''choices'') JNull of
             JList (JObj cd # rest) \<Rightarrow>
               (case dget cd (lit ''message'') (JObj []) of
                  JObj md \<Rightarrow> sized (dget md (lit ''content'') (JStr []))
                | _ \<Rightarrow> False)
           | _ \<Rightarrow> False)
      | _ \<Rightarrow> False)"

section \<open>The extraction, as the specification words it\<close>

text \<open>
  For the properties of \<^verbatim>\<open>extract_tool_calls\<close>.  A decoded value is a valid call
  (\<open>valid_call\<close>) when it is an object with a truthy \<^verbatim>\<open>tool\<close> entry.  A captured group is a
  candidate (\<open>candidate\<close> gives its value) when it decodes to a valid call that can be
  serialised; otherwise it is malformed (\<open>well_formed_group\<close> fails) or it raises: \<open>raised\<close>
  is the exception, other than \<^verbatim>\<open>JSONDecodeError\<close>, that the decoder raises on the group
  or the serialiser on its valid call, and \<open>first_raised\<close> the first such exception along a
  list of groups.  \<open>key_of\<close> is the serialisation of a value.  \<open>keep_first\<close> keeps, of the
  elements with the same key, the first; \<open>decoded_calls\<close> is what the specification asks
  of a list of captured groups: decode them, drop what is malformed, and collapse the
  candidates with the same serialisation to the first of them.  \<open>balanced_groups\<close> cuts the
  candidates of the third pattern at the end the brace balancing finds and drops those
  without one.  \<open>finditer_pos\<close> is \<open>finditer\<close> with the position where each match starts
  (\<^verbatim>\<open>m.start()\<close>).
\<close>

definition valid_call :: "json \<Rightarrow> bool" where
  "valid_call v \<longleftrightarrow> is_dict v \<and> truthy (dget (the_dict v) (lit ''tool'') JNull)"

definition candidate :: "(str \<Rightarrow> exn + json) \<Rightarrow> (json \<Rightarrow> exn + str) \<Rightarrow> str \<Rightarrow> json option" where
  "candidate ld dp g =
     (case ld g of
        Inl e \<Rightarrow> None
      | Inr v \<Rightarrow> if valid_call v then (case dp v of Inl e \<Rightarrow> None | Inr k \<Rightarrow> Some v) else None)"

definition raised :: "(str \<Rightarrow> exn + json) \<Rightarrow> (json \<Rightarrow> exn + str) \<Rightarrow> str \<Rightarrow> exn option" where
  "raised ld dp g =
     (case ld g of
        Inl e \<Rightarrow> if e = JSONDecodeError then None else Some e
      | Inr v \<Rightarrow>
          if valid_call v then
            (case dp v of
               Inl e \<Rightarrow> if e = JSONDecodeError then None else Some e
             | Inr k \<Rightarrow> None)
          else None)"

fun first_raised ::
  "(str \<Rightarrow> exn + json) \<Rightarrow> (json \<Rightarrow> exn + str) \<Rightarrow> str list \<Rightarrow> exn option" where
  "first_raised ld dp [] = None"
| "first_raised ld dp (g # gs) =
     (case raised ld dp g of Some e \<Rightarrow> Some e | None \<Rightarrow> first_raised ld dp gs)"










section \<open>Example inputs\<close>

definition conv_short :: "message list" where
  "conv_short =
     [\<lparr>role = lit ''system'', mcontent = JStr (lit ''p'')\<rparr>, \<lparr>role = lit ''user'', mcontent = JStr (lit ''hi'')\<rparr>]"

definition conv_long :: "message list" where
  "conv_long =
     \<lparr>role = lit ''system'', mcontent = JStr (lit ''p'')\<rparr> #
     map (\<lambda>i. \<lparr>role = (if even i then lit ''user'' else lit ''assistant''), mcontent = JInt (int i)\<rparr>)
       [0..<50]"

text \<open>An environment for the examples: every operation of the operating system succeeds,
  the shell prints nothing, and the library functions are given on the values the
  examples use.\<close>

definition env0 :: env where
  "env0 =
     \<lparr>isalnum = (\<lambda>c. False),
      repr = (\<lambda>v. (lit ''?'')),
      exc_str = (\<lambda>e. (lit ''error'')),
      resolve = (\<lambda>s. s),
      int_of_str = (\<lambda>s. None),
      mkdir_parents = (\<lambda>fs p. Inr fs),
      create_error = (\<lambda>fs p. None),
      unlink_error = (\<lambda>fs p. None),
      shell = (\<lambda>cmd timeout fs. (Completed [] [] 0, fs)),
      readonly_tool = (\<lambda>name fs call. Inr (success [])),
      todo_tool = (\<lambda>action tasks indices title todo. (Inr (success []), todo)),
      loads = (\<lambda>s. Inl JSONDecodeError),
      dumps = (\<lambda>v. Inr []),
      post = (\<lambda>i key msgs. Inl RequestConnectionError)\<rparr>"

text \<open>A file system with one readable text file of 500,001 bytes, and a call of
  \<^verbatim>\<open>read_file\<close> on it without a line range.\<close>

definition fs_big :: filesystem where
  "fs_big =
     Map.empty(lit ''/big.txt'' \<mapsto>
       File \<lparr>st_size = 500001, stored = replicate 500001 (ord (CHR ''a'')),
             readable = True, writable = True\<rparr>)"

definition call_big :: "(str \<times> json) list" where
  "call_big = [(lit ''tool'', JStr (lit ''read_file'')), (lit ''path'', JStr (lit ''/big.txt''))]"

text \<open>A session on that file system in which the user has not granted trust and will
  answer the next prompt with \<open>No\<close>.\<close>

definition session0 :: session where
  "session0 =
     \<lparr>files = fs_big, trust_session = False, answers = [No], session_todo = JNull,
      commands_run = []\<rparr>"

text \<open>The call \<^verbatim>\<open>{"tool": "run_command", "command": 5}\<close>.\<close>

definition call_command_5 :: json where
  "call_command_5 = JObj [(lit ''tool'', JStr (lit ''run_command'')), (lit ''command'', JInt 5)]"

text \<open>A bare tool call with a nested object, followed by prose.\<close>

definition text_nested :: str where
  \<open>text_nested =
     lit ''{"tool": "patch_file", "path": "a", "patches": [{"line": 1, "action": "delete"}]} done''\<close>

text \<open>
  An exchange for the agent loop: the endpoint answers the first request with a fenced
  \<^verbatim>\<open>write_file\<close> call and every later one with the text "Done."; the decoder knows the
  one JSON text of the example, and the serialiser gives the call with its keys sorted
  (\<open>key_write\<close>).
\<close>

definition text_write :: str where
  \<open>text_write = lit ''```{"tool": "write_file", "path": "/big.txt", "content": "x"}```''\<close>

definition json_write :: str where
  \<open>json_write = lit ''{"tool": "write_file", "path": "/big.txt", "content": "x"}''\<close>

definition key_write :: str where
  \<open>key_write = lit ''{"content": "x", "path": "/big.txt", "tool": "write_file"}''\<close>

definition call_write :: "(str \<times> json) list" where
  "call_write = [(lit ''tool'', JStr (lit ''write_file'')), (lit ''path'', JStr (lit ''/big.txt'')), (lit ''content'', JStr (lit ''x''))]"

definition reply :: "str \<Rightarrow> response" where
  "reply s =
     \<lparr>http_ok = True, status_code = 200,
      body = Some (JObj [(lit ''choices'', JList [JObj [(lit ''message'', JObj [(lit ''content'', JStr s)])]])])\<rparr>"

definition env1 :: env where
  "env1 = env0
     \<lparr>loads := (\<lambda>s. if s = json_write then Inr (JObj call_write) else Inl JSONDecodeError),
      dumps := (\<lambda>v. Inr (if v = JObj call_write then key_write else [])),
      post := (\<lambda>i key msgs. Inr (reply (if length msgs \<le> 1 then text_write else lit ''Done.'')))\<rparr>"

definition backend1 :: backend where
  "backend1 =
     \<lparr>api_keys = [lit ''key-1''],
      config = \<lparr>mode = lit ''cloud'', model_key = lit ''codex'', ollama_model = lit ''llama3'',
                reasoning = False, verbose = False\<rparr>,
      post_local = (\<lambda>m msgs. Inl RequestConnectionError)\<rparr>"

definition conv1 :: "message list" where
  "conv1 = [\<lparr>role = lit ''user'', mcontent = JStr (lit ''write it'')\<rparr>]"




text \<open>
  Patches and files for \<^verbatim>\<open>patch_file\<close>: the two patches of the specification's example
  (delete line 2; replace line 1 by "X") and the lines "a", "b", "c"; two patches on the
  same line; a file with a form feed inside and no final newline; a file of two lines
  without a final newline.
\<close>

definition p_del2 :: json where
  "p_del2 = JObj [(lit ''line'', JInt 2), (lit ''action'', JStr (lit ''delete''))]"

definition p_rep1 :: json where
  "p_rep1 = JObj [(lit ''line'', JInt 1), (lit ''action'', JStr (lit ''replace'')), (lit ''content'', JStr (lit ''X''))]"




definition fs_ff :: filesystem where
  "fs_ff =
     Map.empty(lit ''/g.txt'' \<mapsto>
       File \<lparr>st_size = 3, stored = [ord (CHR ''a''), 0x0C, ord (CHR ''b'')],
             readable = True, writable = True\<rparr>)"

definition call_patch_del2 :: "(str \<times> json) list" where
  "call_patch_del2 =
     [(lit ''tool'', JStr (lit ''patch_file'')), (lit ''path'', JStr (lit ''/g.txt'')), (lit ''patches'', JList [p_del2])]"

text \<open>A file with a line separator (\<^verbatim>\<open>U+2028\<close>) inside and no final newline, and a call
  deleting its second line.\<close>

definition fs_ls :: filesystem where
  "fs_ls =
     Map.empty(lit ''/l.txt'' \<mapsto>
       File \<lparr>st_size = 5, stored = [ord (CHR ''a''), 0x2028, ord (CHR ''b'')],
             readable = True, writable = True\<rparr>)"

definition call_patch_ls :: "(str \<times> json) list" where
  "call_patch_ls =
     [(lit ''tool'', JStr (lit ''patch_file'')), (lit ''path'', JStr (lit ''/l.txt'')),
      (lit ''patches'', JList [p_del2])]"

definition fs_ab :: filesystem where
  "fs_ab =
     Map.empty(lit ''/h.txt'' \<mapsto>
       File \<lparr>st_size = 3, stored = [ord (CHR ''a''), NL, ord (CHR ''b'')],
             readable = True, writable = True\<rparr>)"

definition call_patch_rep1 :: "(str \<times> json) list" where
  "call_patch_rep1 =
     [(lit ''tool'', JStr (lit ''patch_file'')), (lit ''path'', JStr (lit ''/h.txt'')), (lit ''patches'', JList [p_rep1])]"

text \<open>
  For the remote backend: a successful response whose body is \<^verbatim>\<open>{"choices": [5]}\<close>; three
  keys of which only the third is accepted, the endpoint answering HTTP 500 to the
  others; and the default settings.
\<close>

definition resp_choices_5 :: response where
  "resp_choices_5 =
     \<lparr>http_ok = True, status_code = 200, body = Some (JObj [(lit ''choices'', JList [JInt 5])])\<rparr>"

definition keys3 :: "str list" where
  "keys3 = [lit ''k1'', lit ''k2'', lit ''k3'']"

definition env3 :: env where
  "env3 = env0
     \<lparr>post := (\<lambda>i key msgs.
         if key = lit ''k3'' then Inr (reply (lit ''hello''))
         else Inr \<lparr>http_ok = False, status_code = 500, body = None\<rparr>)\<rparr>"

definition settings0 :: settings where
  "settings0 =
     \<lparr>mode = lit ''cloud'', model_key = lit ''codex'', ollama_model = lit ''llama3'',
      reasoning = False, verbose = False\<rparr>"











text \<open>
  A second exchange: the endpoint answers with two fenced calls, the \<^verbatim>\<open>write_file\<close> call
  above followed by \<^verbatim>\<open>{"tool": "run_command", "command": 5}\<close>; the decoder and the
  serialiser are given on these two calls.
\<close>

definition json_command_5 :: str where
  \<open>json_command_5 = lit ''{"tool": "run_command", "command": 5}''\<close>

definition key_command_5 :: str where
  \<open>key_command_5 = lit ''{"command": 5, "tool": "run_command"}''\<close>

definition text_two :: str where
  "text_two = text_write @ lit '' '' @ fence @ json_command_5 @ fence"

definition env2 :: env where
  "env2 = env0
     \<lparr>loads := (\<lambda>s. if s = json_write then Inr (JObj call_write)
                     else if s = json_command_5 then Inr call_command_5
                     else Inl JSONDecodeError),
      dumps := (\<lambda>v. Inr (if v = JObj call_write then key_write
                          else if v = call_command_5 then key_command_5 else [])),
      post := (\<lambda>i key msgs. Inr (reply text_two))\<rparr>"

section \<open>Properties\<close>

subsection \<open>Context trimming\<close>

lemma trim_context_short:
  "length ms \<le> n \<Longrightarrow> trim_context ms n = ms"
  by (simp add: trim_context_def)

lemma trim_context_long:
  assumes "n < length ms"
  shows "trim_context ms n =
           filter (\<lambda>m. role m = lit ''system'') ms @
           drop (length (filter (\<lambda>m. role m \<noteq> lit ''system'') ms)
                   - max (n - length (filter (\<lambda>m. role m = lit ''system'') ms)) 2)
                (filter (\<lambda>m. role m \<noteq> lit ''system'') ms)"
proof -
  let ?s = "length (filter (\<lambda>m. role m = lit ''system'') ms)"
  have "nat (max (int n - int ?s) 2) = max (n - ?s) 2"
    by (simp add: max_def) linarith
  moreover have "max (int n - int ?s) 2 > 0"
    by simp
  ultimately show ?thesis
    using assms by (simp add: trim_context_def last_slice_def Let_def)
qed

lemma length_filter_split:
  "length (filter P xs) + length (filter (\<lambda>x. \<not> P x) xs) = length xs"
  by (induction xs) auto

text \<open>
  Claim C7.  A list of at most 40 messages is returned unchanged.  A longer list is
  replaced by all its system messages (in order) followed by the last
  \<open>max (40 - system_count) 2\<close> of its non-system messages, the older non-system messages
  being dropped.  With one system message and fifty others, the result is the system
  message followed by the last 39 of the others (the first 11 are dropped).
\<close>

theorem trim_context_spec:
  "(length ms \<le> 40 \<longrightarrow> trim_context ms MAX_CONTEXT_MESSAGES = ms) \<and>
   (40 < length ms \<longrightarrow>
      trim_context ms MAX_CONTEXT_MESSAGES =
        filter (\<lambda>m. role m = lit ''system'') ms @
        drop (length (filter (\<lambda>m. role m \<noteq> lit ''system'') ms)
                - max (40 - length (filter (\<lambda>m. role m = lit ''system'') ms)) 2)
             (filter (\<lambda>m. role m \<noteq> lit ''system'') ms)) \<and>
   (length (filter (\<lambda>m. role m = lit ''system'') ms) = 1 \<and>
    length (filter (\<lambda>m. role m \<noteq> lit ''system'') ms) = 50 \<longrightarrow>
      trim_context ms MAX_CONTEXT_MESSAGES =
        filter (\<lambda>m. role m = lit ''system'') ms @
        drop 11 (filter (\<lambda>m. role m \<noteq> lit ''system'') ms) \<and>
      length (drop 11 (filter (\<lambda>m. role m \<noteq> lit ''system'') ms)) = 39)"
proof (intro conjI impI)
  assume "length ms \<le> 40"
  then show "trim_context ms MAX_CONTEXT_MESSAGES = ms"
    by (simp add: trim_context_short MAX_CONTEXT_MESSAGES_def)
next
  assume "40 < length ms"
  then show "trim_context ms MAX_CONTEXT_MESSAGES =
        filter (\<lambda>m. role m = lit ''system'') ms @
        drop (length (filter (\<lambda>m. role m \<noteq> lit ''system'') ms)
                - max (40 - length (filter (\<lambda>m. role m = lit ''system'') ms)) 2)
             (filter (\<lambda>m. role m \<noteq> lit ''system'') ms)"
    using trim_context_long [of 40 ms] by (simp add: MAX_CONTEXT_MESSAGES_def)
next
  assume h: "length (filter (\<lambda>m. role m = lit ''system'') ms) = 1 \<and>
    length (filter (\<lambda>m. role m \<noteq> lit ''system'') ms) = 50"
  have "length ms = 51"
    using length_filter_split [of "\<lambda>m. role m = lit ''system''" ms] h by simp
  then have "40 < length ms" by simp
  from trim_context_long [OF this] h
  show "trim_context ms MAX_CONTEXT_MESSAGES =
        filter (\<lambda>m. role m = lit ''system'') ms @
        drop 11 (filter (\<lambda>m. role m \<noteq> lit ''system'') ms)"
    by (simp add: MAX_CONTEXT_MESSAGES_def)
next
  assume h: "length (filter (\<lambda>m. role m = lit ''system'') ms) = 1 \<and>
    length (filter (\<lambda>m. role m \<noteq> lit ''system'') ms) = 50"
  then show "length (drop 11 (filter (\<lambda>m. role m \<noteq> lit ''system'') ms)) = 39"
    by simp
qed

lemma conv_long_system:
  "filter (\<lambda>m. role m = lit ''system'') conv_long = [\<lparr>role = lit ''system'', mcontent = JStr (lit ''p'')\<rparr>]"
  unfolding conv_long_def by (simp add: filter_map o_def)

lemma conv_long_others:
  "filter (\<lambda>m. role m \<noteq> lit ''system'') conv_long =
     map (\<lambda>i. \<lparr>role = (if even i then lit ''user'' else lit ''assistant''), mcontent = JInt (int i)\<rparr>)
       [0..<50]"
  unfolding conv_long_def by (simp add: filter_map o_def)

theorem trim_context_spec_witness:
  "length conv_short \<le> 40 \<and> trim_context conv_short MAX_CONTEXT_MESSAGES = conv_short \<and>
   40 < length conv_long \<and>
   length (filter (\<lambda>m. role m = lit ''system'') conv_long) = 1 \<and>
   length (filter (\<lambda>m. role m \<noteq> lit ''system'') conv_long) = 50 \<and>
   trim_context conv_long MAX_CONTEXT_MESSAGES =
     \<lparr>role = lit ''system'', mcontent = JStr (lit ''p'')\<rparr> #
     map (\<lambda>i. \<lparr>role = (if even i then lit ''user'' else lit ''assistant''), mcontent = JInt (int i)\<rparr>)
       [11..<50]"
  using trim_context_spec [of conv_short] trim_context_spec [of conv_long]
  by (simp add: conv_long_system conv_long_others drop_map)
     (simp add: conv_short_def conv_long_def drop_map)

subsection \<open>Reading a large file\<close>

text \<open>
  Claim C1, as stated, fails.  On the file of 500,001 bytes of the example, read without a
  line range, \<^verbatim>\<open>read_file\<close> answers with \<open>ok = False\<close> and the "File > 400KB" error; the
  result has neither a \<open>truncated\<close> flag nor any content.
\<close>

theorem read_file_500001_counterexample:
  "read_file env0 fs_big call_big = Inr (failure intelligent_mode_msg) \<and>
   map_of (failure intelligent_mode_msg) (lit ''ok'') = Some (JBool False) \<and>
   map_of (failure intelligent_mode_msg) (lit ''truncated'') = None \<and>
   map_of (failure intelligent_mode_msg) (lit ''result'') = None"
  by (simp add: read_file_def call_big_def fs_big_def env0_def dget_def to_path_def failure_def)

text \<open>
  Claim C1, amended.  For every call of \<^verbatim>\<open>read_file\<close> whose path names a regular file of more
  than 400,000 bytes (so also one of exactly 500,001 bytes) and which has no start line,
  the result is \<open>ok = False\<close> with the "File > 400KB" error, and nothing is read.  No result
  of \<^verbatim>\<open>read_file\<close> carries a \<open>truncated\<close> entry: the truncation to 500,000 characters
  cannot be reached.
\<close>

theorem read_file_large_refused:
  "(dget call (lit ''path'') (JStr []) = JStr s \<and> s \<noteq> [] \<and> fs (resolve env s) = Some (File f) \<and>
    400000 < st_size f \<and> dget call (lit ''start_line'') JNull = JNull \<longrightarrow>
      read_file env fs call = Inr (failure intelligent_mode_msg)) \<and>
   (read_file env fs call = Inr r \<longrightarrow> map_of r (lit ''truncated'') = None)"
proof (intro conjI impI)
  assume "dget call (lit ''path'') (JStr []) = JStr s \<and> s \<noteq> [] \<and> fs (resolve env s) = Some (File f) \<and>
    400000 < st_size f \<and> dget call (lit ''start_line'') JNull = JNull"
  then show "read_file env fs call = Inr (failure intelligent_mode_msg)"
    by (simp add: read_file_def to_path_def)
next
  assume "read_file env fs call = Inr r"
  then show "map_of r (lit ''truncated'') = None"
    by (auto simp: read_file_def Let_def failure_def success_def MAX_FILE_SIZE_def
             split: if_splits sum.splits option.splits node.splits)
qed

theorem read_file_large_refused_witness:
  "dget call_big (lit ''path'') (JStr []) = JStr (lit ''/big.txt'') \<and> lit ''/big.txt'' \<noteq> [] \<and>
   fs_big (resolve env0 (lit ''/big.txt'')) =
     Some (File \<lparr>st_size = 500001, stored = replicate 500001 (ord (CHR ''a'')),
                 readable = True, writable = True\<rparr>) \<and>
   400000 < st_size \<lparr>st_size = 500001, stored = replicate 500001 (ord (CHR ''a'')),
                    readable = True, writable = True\<rparr> \<and>
   dget call_big (lit ''start_line'') JNull = JNull \<and>
   read_file env0 fs_big call_big = Inr (failure intelligent_mode_msg) \<and>
   map_of (failure intelligent_mode_msg) (lit ''truncated'') = None"
  using read_file_large_refused [of call_big "lit ''/big.txt''" fs_big env0
      "\<lparr>st_size = 500001, stored = replicate 500001 (ord (CHR ''a'')), readable = True, writable = True\<rparr>"
      "failure intelligent_mode_msg"]
  by (simp add: call_big_def fs_big_def env0_def dget_def)

subsection \<open>Exceptions leaving the executor\<close>

text \<open>
  Claim C2 says that \<^verbatim>\<open>execute_tool\<close> never raises.  The slice
  \<^verbatim>\<open>call.get("command", "")[:60]\<close> is evaluated before the \<^verbatim>\<open>try\<close>: on the call
  \<^verbatim>\<open>{"tool": "run_command", "command": 5}\<close> it raises \<^verbatim>\<open>TypeError\<close>, which leaves
  \<^verbatim>\<open>execute_tool\<close>, in every environment and every session.
\<close>

theorem execute_tool_raises_on_command_5:
  "execute_tool env st call_command_5 = (Inl TypeError, st)"
  by (simp add: execute_tool_def call_command_5_def dget_def destructive_tools_def slice60_def)

subsection \<open>The bare-JSON scan\<close>

text \<open>
  Claim C4 says that a bare tool object followed by prose is extracted as exactly that
  object, its end being found by balancing braces.  The lazy pattern already stops at the
  first closing brace, so the candidate of an object with a nested object never balances:
  on the text of the example (a \<^verbatim>\<open>patch_file\<close> call followed by the word "done") the
  only candidate is the first 79 characters, which end inside the object, the balancing
  scan finds no end in it, and nothing is extracted, whatever the JSON decoder accepts.
\<close>

theorem extract_nested_bare_object_dropped:
  "fenced_groups text_nested = [] \<and> tagged_groups text_nested = [] \<and>
   bare_groups an text_nested = [take 79 text_nested] \<and>
   balance_end 0 0 (take 79 text_nested) = 0 \<and>
   extract_tool_calls an ld dp text_nested = Inr []"
  by (simp add: extract_tool_calls_def text_nested_def fenced_groups_def tagged_groups_def
        bare_groups_def match_fence_def match_tag_def match_bare_def starts_with_def fence_def
        tool_key_open_def is_space_def not_tick_or_word_def lookahead_ok_def is_word_def
        try_add_balanced_def)

subsection \<open>The permission gate\<close>

lemma permission_denied_frame:
  "permission_prompt st = (False, st') \<Longrightarrow>
     files st' = files st \<and> commands_run st' = commands_run st \<and> session_todo st' = session_todo st
     \<and> trust_session st' = trust_session st \<and> \<not> trust_session st"
  by (auto simp: permission_prompt_def split: if_splits list.splits choice.splits)

lemma execute_tool_denied:
  assumes "dget call (lit ''tool'') (JStr []) \<in> set destructive_tools"
    and "truthy (dget call (lit ''path'') (JStr [])) \<or> slice60 (dget call (lit ''command'') (JStr [])) = Inr t"
    and "permission_prompt st = (False, st')"
  shows "execute_tool env st (JObj call) =
           (Inr (failure (lit ''Denied by user'') @ [(lit ''tool'', dget call (lit ''tool'') (JStr []))]), st')"
  using assms by (auto simp: execute_tool_def Let_def)

lemma run_tools_append:
  "run_tools env st (xs @ ys) acc =
     (case run_tools env st xs acc of
        (Inl e, s) \<Rightarrow> (Inl e, s)
      | (Inr rs, s) \<Rightarrow> run_tools env s ys rs)"
  by (induction xs arbitrary: st acc) (auto simp: Let_def split: prod.splits sum.splits)

lemma run_tools_prefix:
  "run_tools env st xs acc = (Inr rs, s) \<Longrightarrow> \<exists>zs. rs = acc @ zs \<and> length zs = length xs"
proof (induction xs arbitrary: st acc)
  case Nil then show ?case by simp
next
  case (Cons x xs)
  then show ?case
    by (auto simp: Let_def split: prod.splits sum.splits if_splits) fastforce
qed

lemma tool_name_of_destructive:
  assumes "dget call (lit ''tool'') (JStr []) = JStr name" "JStr name \<in> set destructive_tools"
  shows "dget (the_dict (JObj call)) (lit ''tool'') (JStr (lit ''action'')) = JStr name"
  using assms by (auto simp: dget_def the_dict_def destructive_tools_def split: option.splits)

lemma run_tools_denied_step:
  assumes "dget call (lit ''tool'') (JStr []) = JStr name" "JStr name \<in> set destructive_tools"
    and "truthy (dget call (lit ''path'') (JStr [])) \<or> slice60 (dget call (lit ''command'') (JStr [])) = Inr t"
    and "permission_prompt st1 = (False, st2)"
  shows "run_tools env st1 (JObj call # rest) acc = run_tools env st2 rest (acc @ [denial_report name])"
proof -
  have ex: "execute_tool env st1 (JObj call) =
           (Inr (failure (lit ''Denied by user'') @ [(lit ''tool'', JStr name)]), st2)"
    using execute_tool_denied [of call t st1 st2 env] assms by simp
  have nm: "dget (the_dict (JObj call)) (lit ''tool'') (JStr (lit ''action'')) = JStr name"
    using tool_name_of_destructive assms by simp
  have rep: "tool_report env (JStr name) (failure (lit ''Denied by user'') @ [(lit ''tool'', JStr name)]) = denial_report name"
    by (simp add: tool_report_def failure_def dget_def py_str_def denial_report_def)
  have nr: "\<not> format_raises (failure (lit ''Denied by user'') @ [(lit ''tool'', JStr name)])"
    by (simp add: format_raises_def failure_def dget_def)
  show ?thesis
    using ex nm rep nr by (simp add: Let_def)
qed

text \<open>
  What the code does for a denied call when no call of the response raises.  Let a call
  of a destructive tool (\<^verbatim>\<open>delete_file\<close>, \<^verbatim>\<open>write_file\<close>, \<^verbatim>\<open>edit_file\<close>, \<^verbatim>\<open>patch_file\<close>,
  \<^verbatim>\<open>run_command\<close>) reach the permission gate and be denied there.  Then \<^verbatim>\<open>execute_tool\<close>
  returns \<open>ok = False\<close> with the error "Denied by user", and the file system and the list
  of commands run are what they were before the call: no handler ran.  In the agent
  loop, when the response holds that call after the calls \<open>pre\<close> and before the calls
  \<open>rest\<close>, and all of these return, the round appends the response as an assistant turn
  and a user turn of tool results in which the entry of the denied call is
  "[tool] Error: Denied by user", and the loop goes on with the rounds that are left.
\<close>

lemma denied_call_round:
  "dget call (lit ''tool'') (JStr []) = JStr name \<and> JStr name \<in> set destructive_tools \<and>
   (truthy (dget call (lit ''path'') (JStr [])) \<or> slice60 (dget call (lit ''command'') (JStr [])) = Inr t) \<and>
   permission_prompt st1 = (False, st2) \<longrightarrow>
     execute_tool env st1 (JObj call) =
       (Inr [(lit ''ok'', JBool False), (lit ''error'', JStr (lit ''Denied by user'')), (lit ''tool'', JStr name)], st2) \<and>
     files st2 = files st1 \<and> commands_run st2 = commands_run st1 \<and>
     (chat env b (trim_context msgs MAX_CONTEXT_MESSAGES) = Inr r \<and> truthy (dget r (lit ''ok'') JNull) \<and>
      response_tools env (dget r (lit ''content'') (JStr [])) = Inr (pre @ JObj call # rest) \<and>
      run_tools env st pre [] = (Inr rs, st1) \<and>
      run_tools env st2 rest (rs @ [denial_report name]) = (Inr reports, st3) \<longrightarrow>
        agent_iter env b (Suc n) st msgs =
          agent_iter env b n st3
            (trim_context msgs MAX_CONTEXT_MESSAGES @
             [\<lparr>role = lit ''assistant'', mcontent = dget r (lit ''content'') (JStr [])\<rparr>,
              \<lparr>role = lit ''user'', mcontent = JStr (lit ''Tool results:'' @ [NL] @ join [NL, NL] reports)\<rparr>]) \<and>
        length pre < length reports \<and> reports ! length pre = denial_report name)"
proof (intro impI conjI)
  assume h: "dget call (lit ''tool'') (JStr []) = JStr name \<and> JStr name \<in> set destructive_tools \<and>
   (truthy (dget call (lit ''path'') (JStr [])) \<or> slice60 (dget call (lit ''command'') (JStr [])) = Inr t) \<and>
   permission_prompt st1 = (False, st2)"
  then show "execute_tool env st1 (JObj call) =
       (Inr [(lit ''ok'', JBool False), (lit ''error'', JStr (lit ''Denied by user'')), (lit ''tool'', JStr name)], st2)"
    using execute_tool_denied [of call t st1 st2 env] by (simp add: failure_def)
  from h show "files st2 = files st1" "commands_run st2 = commands_run st1"
    using permission_denied_frame [of st1 st2] by simp_all
  assume a: "chat env b (trim_context msgs MAX_CONTEXT_MESSAGES) = Inr r \<and> truthy (dget r (lit ''ok'') JNull) \<and>
      response_tools env (dget r (lit ''content'') (JStr [])) = Inr (pre @ JObj call # rest) \<and>
      run_tools env st pre [] = (Inr rs, st1) \<and>
      run_tools env st2 rest (rs @ [denial_report name]) = (Inr reports, st3)"
  have step: "run_tools env st1 (JObj call # rest) rs = run_tools env st2 rest (rs @ [denial_report name])"
    using run_tools_denied_step [of call name t st1 st2 env rest rs] h by simp
  have all: "run_tools env st (pre @ JObj call # rest) [] = (Inr reports, st3)"
    using a step by (simp add: run_tools_append)
  show "agent_iter env b (Suc n) st msgs =
          agent_iter env b n st3
            (trim_context msgs MAX_CONTEXT_MESSAGES @
             [\<lparr>role = lit ''assistant'', mcontent = dget r (lit ''content'') (JStr [])\<rparr>,
              \<lparr>role = lit ''user'', mcontent = JStr (lit ''Tool results:'' @ [NL] @ join [NL, NL] reports)\<rparr>])"
    using a all by (simp add: agent_iter.simps Let_def)
  obtain zs where zs: "rs = [] @ zs" "length zs = length pre"
    using run_tools_prefix [of env st pre "[]" rs st1] a by blast
  obtain ws where ws: "reports = (rs @ [denial_report name]) @ ws"
    using run_tools_prefix [of env st2 rest "rs @ [denial_report name]" reports st3] a by blast
  show "length pre < length reports" using zs ws by simp
  show "reports ! length pre = denial_report name"
    using zs ws by (simp add: nth_append)
qed

lemma extract_text_write:
  "extract_tool_calls (isalnum env1) (loads env1) (dumps env1) text_write = Inr [JObj call_write]"
  by (simp add: extract_tool_calls_def text_write_def fenced_groups_def tagged_groups_def
        bare_groups_def match_fence_def match_tag_def match_group_def closes_with_def starts_with_def fence_def
        is_space_def try_add_def except_JSONDecodeError_def add_tool_def env1_def env0_def
        json_write_def key_write_def call_write_def dget_def)

lemma chat_first_round: "chat env1 backend1 conv1 = Inr [(lit ''ok'', JBool True), (lit ''content'', JStr text_write), (lit ''model'', JStr (lit ''GPT-5.2-Codex'')), (lit ''tokens'', JInt 16)]"
  by (simp add: chat_def backend1_def chat_poe_def augment_def conv1_def env1_def env0_def attempt_def reply_def
    read_choice_def get_of_def dget_def first_item_def estimate_tokens_def model_name_def MODELS_def text_write_def)

lemma trim_conv1: "trim_context conv1 MAX_CONTEXT_MESSAGES = conv1"
  by (simp add: trim_context_def conv1_def MAX_CONTEXT_MESSAGES_def)

lemma trim_conv1_more: "trim_context (conv1 @ [a, b]) MAX_CONTEXT_MESSAGES = conv1 @ [a, b]"
  by (simp add: trim_context_def conv1_def MAX_CONTEXT_MESSAGES_def)

lemma chat_later_round: "chat env1 backend1 (conv1 @ [a, b]) =
   Inr [(lit ''ok'', JBool True), (lit ''content'', JStr (lit ''Done.'')), (lit ''model'', JStr (lit ''GPT-5.2-Codex'')), (lit ''tokens'', JInt 1)]"
  apply (cases "role b = lit ''user''")
  by (simp_all add: chat_def backend1_def chat_poe_def augment_def conv1_def env1_def env0_def attempt_def reply_def
    read_choice_def get_of_def dget_def first_item_def estimate_tokens_def model_name_def MODELS_def)

lemma extract_done: "extract_tool_calls an ld dp (lit ''Done.'') = Inr []"
  by (simp add: extract_tool_calls_def fenced_groups_def tagged_groups_def
        bare_groups_def match_fence_def match_tag_def match_bare_def starts_with_def fence_def
        tool_key_open_def not_tick_or_word_def)

lemma denied_write_round:
  "dget call_write (lit ''tool'') (JStr []) = JStr (lit ''write_file'') \<and>
   JStr (lit ''write_file'') \<in> set destructive_tools \<and>
   truthy (dget call_write (lit ''path'') (JStr [])) \<and>
   permission_prompt session0 = (False, session0\<lparr>answers := []\<rparr>) \<and>
   execute_tool env1 session0 (JObj call_write) =
     (Inr [(lit ''ok'', JBool False), (lit ''error'', JStr (lit ''Denied by user'')), (lit ''tool'', JStr (lit ''write_file''))],
      session0\<lparr>answers := []\<rparr>) \<and>
   files (session0\<lparr>answers := []\<rparr>) = files session0 \<and>
   response_tools env1 (JStr text_write) = Inr [JObj call_write] \<and>
   agent_iter env1 backend1 (Suc (Suc 0)) session0 conv1 =
     (Inr (conv1 @
           [\<lparr>role = lit ''assistant'', mcontent = JStr text_write\<rparr>,
            \<lparr>role = lit ''user'',
             mcontent = JStr (lit ''Tool results:'' @ [NL] @ lit ''[write_file] Error: Denied by user'')\<rparr>,
            \<lparr>role = lit ''assistant'', mcontent = JStr (lit ''Done.'')\<rparr>]),
      session0\<lparr>answers := []\<rparr>)"
proof -
  let ?r = "[(lit ''ok'', JBool True), (lit ''content'', JStr text_write), (lit ''model'', JStr (lit ''GPT-5.2-Codex'')),
             (lit ''tokens'', JInt 16)]"
  let ?st2 = "session0\<lparr>answers := []\<rparr>"
  have h1: "dget call_write (lit ''tool'') (JStr []) = JStr (lit ''write_file'') \<and>
      JStr (lit ''write_file'') \<in> set destructive_tools \<and>
      (truthy (dget call_write (lit ''path'') (JStr [])) \<or>
       slice60 (dget call_write (lit ''command'') (JStr [])) = Inr JNull) \<and>
      permission_prompt session0 = (False, ?st2)"
    by (simp add: call_write_def dget_def destructive_tools_def permission_prompt_def session0_def)
  have rt: "response_tools env1 (JStr text_write) = Inr [JObj call_write]"
    using extract_text_write by (simp add: response_tools_def text_write_def)
  have h2: "chat env1 backend1 (trim_context conv1 MAX_CONTEXT_MESSAGES) = Inr ?r \<and>
      truthy (dget ?r (lit ''ok'') JNull) \<and>
      response_tools env1 (dget ?r (lit ''content'') (JStr [])) = Inr ([] @ JObj call_write # []) \<and>
      run_tools env1 session0 [] [] = (Inr [], session0) \<and>
      run_tools env1 ?st2 [] ([] @ [denial_report (lit ''write_file'')]) =
        (Inr [denial_report (lit ''write_file'')], ?st2)"
    using rt by (simp add: trim_conv1 chat_first_round dget_def)
  have next_round: "agent_iter env1 backend1 (Suc 0) ?st2 (conv1 @ [a, b]) =
      (Inr (conv1 @ [a, b, \<lparr>role = lit ''assistant'', mcontent = JStr (lit ''Done.'')\<rparr>]), ?st2)" for a b
    by (simp add: agent_iter.simps trim_conv1_more chat_later_round dget_def response_tools_def extract_done [simplified])
  from denied_call_round [of call_write "lit ''write_file''" JNull session0 ?st2 env1 backend1 conv1 ?r "[]" "[]"
      session0 "[]" "[denial_report (lit ''write_file'')]" ?st2 "Suc 0"] h1 h2
  have main: "execute_tool env1 session0 (JObj call_write) =
       (Inr [(lit ''ok'', JBool False), (lit ''error'', JStr (lit ''Denied by user'')), (lit ''tool'', JStr (lit ''write_file''))],
        ?st2) \<and>
     files ?st2 = files session0 \<and>
     agent_iter env1 backend1 (Suc (Suc 0)) session0 conv1 =
       agent_iter env1 backend1 (Suc 0) ?st2
         (trim_context conv1 MAX_CONTEXT_MESSAGES @
          [\<lparr>role = lit ''assistant'', mcontent = dget ?r (lit ''content'') (JStr [])\<rparr>,
           \<lparr>role = lit ''user'',
            mcontent = JStr (lit ''Tool results:'' @ [NL] @ join [NL, NL] [denial_report (lit ''write_file'')])\<rparr>])"
    by blast
  have c: "dget ?r (lit ''content'') (JStr []) = JStr text_write"
    by (simp add: dget_def)
  have j: "join [NL, NL] [denial_report (lit ''write_file'')] = lit ''[write_file] Error: Denied by user''"
    by (simp add: denial_report_def)
  show ?thesis
    using main h1 rt unfolding trim_conv1 c j next_round
    by (simp add: call_write_def dget_def)
qed

lemma extract_text_two:
  "extract_tool_calls (isalnum env2) (loads env2) (dumps env2) text_two = Inr [JObj call_write, call_command_5]"
  by (simp add: extract_tool_calls_def text_two_def text_write_def fenced_groups_def
        tagged_groups_def bare_groups_def match_fence_def match_tag_def match_group_def
        closes_with_def starts_with_def fence_def is_space_def try_add_def
        except_JSONDecodeError_def add_tool_def env2_def env0_def json_write_def
        json_command_5_def key_write_def key_command_5_def call_write_def call_command_5_def
        dget_def)

lemma chat_two: "chat env2 backend1 conv1 =
   Inr [(lit ''ok'', JBool True), (lit ''content'', JStr text_two), (lit ''model'', JStr (lit ''GPT-5.2-Codex'')),
        (lit ''tokens'', JInt (int (length text_two div 4)))]"
  by (simp add: chat_def backend1_def chat_poe_def augment_def conv1_def env2_def env0_def
        attempt_def reply_def read_choice_def get_of_def dget_def first_item_def
        estimate_tokens_def model_name_def MODELS_def text_two_def text_write_def fence_def)

text \<open>
  Claim C6 says that after a destructive call which the permission gate denies, the agent
  loop appends the denial as a tool-result turn and goes on with the next round.  The
  loop runs the calls of a response one after the other outside any \<^verbatim>\<open>try\<close>, relying on
  \<^verbatim>\<open>execute_tool\<close> to capture every failure, and appends the two turns only after the
  last call.  In the exchange of the example the response holds a \<^verbatim>\<open>write_file\<close> call
  followed by \<^verbatim>\<open>{"tool": "run_command", "command": 5}\<close>, and the user answers the prompt
  with "No": \<^verbatim>\<open>execute_tool\<close> returns "Denied by user" for the first call and leaves the
  files as they were, the second call raises \<^verbatim>\<open>TypeError\<close> (the slice before the \<^verbatim>\<open>try\<close>),
  and that exception leaves \<^verbatim>\<open>agent_loop\<close> in the first round: no turn is appended, the
  denial is reported nowhere, and there is no next round.
\<close>

theorem denial_lost_when_next_call_raises:
  "chat env2 backend1 (trim_context conv1 MAX_CONTEXT_MESSAGES) =
     Inr [(lit ''ok'', JBool True), (lit ''content'', JStr text_two), (lit ''model'', JStr (lit ''GPT-5.2-Codex'')),
          (lit ''tokens'', JInt (int (length text_two div 4)))] \<and>
   response_tools env2 (JStr text_two) = Inr [JObj call_write, call_command_5] \<and>
   execute_tool env2 session0 (JObj call_write) =
     (Inr [(lit ''ok'', JBool False), (lit ''error'', JStr (lit ''Denied by user'')), (lit ''tool'', JStr (lit ''write_file''))],
      session0\<lparr>answers := []\<rparr>) \<and>
   files (session0\<lparr>answers := []\<rparr>) = files session0 \<and>
   execute_tool env2 (session0\<lparr>answers := []\<rparr>) call_command_5 =
     (Inl TypeError, session0\<lparr>answers := []\<rparr>) \<and>
   run_tools env2 session0 [JObj call_write, call_command_5] [] =
     (Inl TypeError, session0\<lparr>answers := []\<rparr>) \<and>
   agent_loop env2 backend1 session0 conv1 = (Inl TypeError, session0\<lparr>answers := []\<rparr>)"
proof -
  let ?st = "session0\<lparr>answers := []\<rparr>"
  have rt: "response_tools env2 (JStr text_two) = Inr [JObj call_write, call_command_5]"
    using extract_text_two by (simp add: response_tools_def text_two_def text_write_def)
  have e1: "execute_tool env2 session0 (JObj call_write) =
     (Inr [(lit ''ok'', JBool False), (lit ''error'', JStr (lit ''Denied by user'')), (lit ''tool'', JStr (lit ''write_file''))],
      ?st)"
    by (simp add: execute_tool_def call_write_def dget_def destructive_tools_def
          permission_prompt_def session0_def failure_def)
  have e2: "execute_tool env2 ?st call_command_5 = (Inl TypeError, ?st)"
    by (simp add: execute_tool_def call_command_5_def dget_def destructive_tools_def slice60_def)
  have nr: "\<not> format_raises [(lit ''ok'', JBool False), (lit ''error'', JStr (lit ''Denied by user'')),
                              (lit ''tool'', JStr (lit ''write_file''))]"
    by (simp add: format_raises_def dget_def)
  have run: "run_tools env2 session0 [JObj call_write, call_command_5] [] = (Inl TypeError, ?st)"
    using e1 e2 nr by (simp add: Let_def)
  have ch: "chat env2 backend1 (trim_context conv1 MAX_CONTEXT_MESSAGES) =
     Inr [(lit ''ok'', JBool True), (lit ''content'', JStr text_two), (lit ''model'', JStr (lit ''GPT-5.2-Codex'')),
          (lit ''tokens'', JInt (int (length text_two div 4)))]"
    by (simp add: trim_conv1 chat_two)
  have m: "MAX_TOOL_LOOPS = Suc 14" by (simp add: MAX_TOOL_LOOPS_def)
  have "agent_iter env2 backend1 (Suc 14) session0 conv1 = (Inl TypeError, ?st)"
    by (subst agent_iter.simps(2)) (simp add: ch dget_def rt run del: run_tools.simps)
  then have loop: "agent_loop env2 backend1 session0 conv1 = (Inl TypeError, ?st)"
    unfolding agent_loop_def m .
  show ?thesis using ch rt e1 e2 run loop by simp
qed

subsection \<open>Editing by find and replace\<close>









subsection \<open>Patching by line numbers\<close>

lemma ends_with_append_self: "ends_with p (s @ p)"
  by (simp add: ends_with_def)

lemma normalized_ends: "ends_with [NL] (normalized s)"
  by (simp add: normalized_def ends_with_append_self)

lemma normalize_pcontent_str:
  "s \<noteq> [] \<Longrightarrow> normalize_pcontent (JStr s) = Inr (JStr (normalized s))"
  by (simp add: normalize_pcontent_def normalized_def)






lemmas patch_eval =
  sorted_patches_def is_dict_def the_dict_def dget_def py_num_def line_key_def apply_patch_def
  normalize_pcontent_def ends_with_def patch_loop_def







subsection \<open>The final newline of a patched file\<close>

lemma patch_file_link:
  assumes "dget call (lit ''path'') (JStr []) = JStr s" "s \<noteq> []" "fs (resolve env s) = Some (File f)"
    "readable f" "writable f" "truthy (dget call (lit ''patches'') (JList []))"
  shows "patch_file env fs call =
     (case patched_content (dget call (lit ''patches'') (JList [])) (universal_newlines (stored f)) of
        Inl e \<Rightarrow> (Inl e, fs)
      | Inr (new_content, changes) \<Rightarrow>
          (Inr (success (lit ''Patched: '' @ resolve env s @ lit '' ('' @ string_of_nat changes @
                  lit '' changes)'')),
           fs(resolve env s \<mapsto> File (f\<lparr>st_size := utf8_len new_content, stored := new_content\<rparr>))))"
  using assms
  by (simp add: patch_file_def to_path_def read_text_def patched_content_def patch_loop_def
        write_text_def split: sum.splits prod.splits)

lemma splitlines_nonempty: "s \<noteq> [] \<Longrightarrow> splitlines s \<noteq> []"
  by (cases s rule: splitlines.cases) (auto split: list.splits)

lemma splitlines_crlf: "splitlines (CR # NL # ds) = [CR, NL] # splitlines ds"
  by simp

lemma splitlines_break:
  "\<not> (c = CR \<and> d = NL) \<Longrightarrow> is_linebreak c \<Longrightarrow> splitlines (c # d # ds) = [c] # splitlines (d # ds)"
  by auto

lemma splitlines_plain:
  "\<not> is_linebreak c \<Longrightarrow> splitlines (d # ds) = l # ls \<Longrightarrow> splitlines (c # d # ds) = (c # l) # ls"
  by (auto simp: is_linebreak_def)

lemma splitlines_cases:
  obtains (crlf) ds where "s = CR # NL # ds"
  | (brk) c d ds where "s = c # d # ds" "\<not> (c = CR \<and> d = NL)" "is_linebreak c"
  | (plain) c d ds l ls where "s = c # d # ds" "\<not> is_linebreak c" "splitlines (d # ds) = l # ls"
  | (single) c where "s = [c]"
  | (empty) "s = []"
proof (cases s rule: splitlines.cases)
  case 1
  then show ?thesis using empty by simp
next
  case (2 c)
  then show ?thesis using single by simp
next
  case (3 c d ds)
  show ?thesis
  proof (cases "c = CR \<and> d = NL")
    case True
    then show ?thesis using 3 crlf by simp
  next
    case False
    show ?thesis
    proof (cases "is_linebreak c")
      case True
      then show ?thesis using 3 False brk by blast
    next
      case nb: False
      have "splitlines (d # ds) \<noteq> []" by (rule splitlines_nonempty) simp
      then obtain l ls where "splitlines (d # ds) = l # ls" by (cases "splitlines (d # ds)") auto
      then show ?thesis using 3 nb plain by blast
    qed
  qed
qed

lemma splitlines_concat: "concat (splitlines s) = s"
proof (induction "length s" arbitrary: s rule: less_induct)
  case less
  show ?case
  proof (cases s rule: splitlines_cases)
    case (crlf ds)
    then show ?thesis using less [of ds] by (simp add: splitlines_crlf del: splitlines.simps)
  next
    case (brk c d ds)
    then show ?thesis using less [of "d # ds"] by (simp add: splitlines_break del: splitlines.simps)
  next
    case (plain c d ds l ls)
    then show ?thesis using less [of "d # ds"] by (simp add: splitlines_plain del: splitlines.simps)
  next
    case (single c)
    then show ?thesis by simp
  next
    case empty
    then show ?thesis by simp
  qed
qed

lemma splitlines_lines_nonempty: "l \<in> set (splitlines s) \<Longrightarrow> l \<noteq> []"
proof (induction "length s" arbitrary: s l rule: less_induct)
  case less
  show ?case
  proof (cases s rule: splitlines_cases)
    case (crlf ds)
    then show ?thesis using less(1) [of ds l] less(2)
      by (auto simp add: splitlines_crlf simp del: splitlines.simps)
  next
    case (brk c d ds)
    then show ?thesis using less(1) [of "d # ds" l] less(2)
      by (auto simp add: splitlines_break simp del: splitlines.simps)
  next
    case (plain c d ds l0 ls)
    then show ?thesis using less(1) [of "d # ds" l] less(2)
      by (auto simp add: splitlines_plain simp del: splitlines.simps)
  next
    case (single c)
    then show ?thesis using less(2) by simp
  next
    case empty
    then show ?thesis using less(2) by simp
  qed
qed

text \<open>Every line but the last ends with a line-break character.\<close>

lemma splitlines_butlast_break:
  "l \<in> set (butlast (splitlines s)) \<Longrightarrow> is_linebreak (last l)"
proof (induction "length s" arbitrary: s l rule: less_induct)
  case less
  show ?case
  proof (cases s rule: splitlines_cases)
    case (crlf ds)
    then show ?thesis using less(1) [of ds l] less(2)
      by (auto simp add: splitlines_crlf is_linebreak_def simp del: splitlines.simps split: if_splits)
  next
    case (brk c d ds)
    then show ?thesis using less(1) [of "d # ds" l] less(2)
      by (auto simp add: splitlines_break simp del: splitlines.simps split: if_splits)
  next
    case (plain c d ds l0 ls)
    have l0: "l0 \<noteq> []" using splitlines_lines_nonempty [of l0 "d # ds"] plain by simp
    have ih: "x \<in> set (butlast (l0 # ls)) \<Longrightarrow> is_linebreak (last x)" for x
      using less(1) [of "d # ds" x] plain by simp
    have "l \<in> set (butlast ((c # l0) # ls))"
      using less(2) plain by (simp add: splitlines_plain del: splitlines.simps)
    then show ?thesis using ih l0 by (cases ls) auto
  next
    case (single c)
    then show ?thesis using less(2) by simp
  next
    case empty
    then show ?thesis using less(2) by simp
  qed
qed

lemma ends_with_single: "ends_with [x] s \<longleftrightarrow> s \<noteq> [] \<and> last s = x"
proof (cases s rule: rev_cases)
  case Nil
  then show ?thesis by (simp add: ends_with_def)
next
  case (snoc ys y)
  then show ?thesis by (auto simp: ends_with_def)
qed

lemma last_concat: "xs \<noteq> [] \<Longrightarrow> last xs \<noteq> [] \<Longrightarrow> last (concat xs) = last (last xs)"
  by (induction xs) (auto simp: last_append)

lemma last_splitlines: "s \<noteq> [] \<Longrightarrow> last (last (splitlines s)) = last s"
proof -
  assume s: "s \<noteq> []"
  have ne: "splitlines s \<noteq> []" using s by (rule splitlines_nonempty)
  have "last (splitlines s) \<noteq> []" using splitlines_lines_nonempty [of "last (splitlines s)" s] ne by simp
  then have "last (concat (splitlines s)) = last (last (splitlines s))" using ne by (rule last_concat [rotated])
  then show ?thesis by (simp add: splitlines_concat)
qed

lemma ends_with_last_splitlines:
  "s \<noteq> [] \<Longrightarrow> ends_with [NL] (last (splitlines s)) \<longleftrightarrow> ends_with [NL] s"
  using last_splitlines [of s] splitlines_lines_nonempty [of "last (splitlines s)" s]
    splitlines_nonempty [of s]
  by (simp add: ends_with_single)

lemma patch_lines_nonempty: "c \<noteq> [] \<Longrightarrow> patch_lines c \<noteq> []"
  using splitlines_nonempty [of c] by (simp add: patch_lines_def Let_def)

lemma patch_lines_unterminated:
  assumes "c \<noteq> []" "\<not> ends_with [NL] c"
  shows "patch_lines c = butlast (splitlines c) @ [last (splitlines c) @ [NL]]"
    and "concat (patch_lines c) = c @ [NL]"
proof -
  have ne: "splitlines c \<noteq> []" using assms(1) by (rule splitlines_nonempty)
  show p: "patch_lines c = butlast (splitlines c) @ [last (splitlines c) @ [NL]]"
    using assms ne ends_with_last_splitlines [of c] by (simp add: patch_lines_def Let_def)
  have "concat (butlast (splitlines c) @ [last (splitlines c)]) = c"
    using ne by (simp add: splitlines_concat)
  then show "concat (patch_lines c) = c @ [NL]" unfolding p by simp
qed

lemma patch_lines_terminated:
  "ends_with [NL] c \<Longrightarrow> patch_lines c = splitlines c"
proof -
  assume e: "ends_with [NL] c"
  then have "c \<noteq> []" by (simp add: ends_with_single)
  then show ?thesis using e ends_with_last_splitlines [of c] by (simp add: patch_lines_def Let_def)
qed

lemma patch_lines_last: "c \<noteq> [] \<Longrightarrow> ends_with [NL] (last (patch_lines c))"
proof (cases "ends_with [NL] c")
  case True
  assume "c \<noteq> []"
  then show ?thesis using True patch_lines_terminated [of c] ends_with_last_splitlines [of c] by simp
next
  case False
  assume "c \<noteq> []"
  then show ?thesis using False patch_lines_unterminated(1) [of c] by (simp add: ends_with_single)
qed

lemma patch_lines_nl_only:
  assumes "nl_only c" "l \<in> set (patch_lines c)"
  shows "ends_with [NL] l"
proof -
  have c: "c \<noteq> []" using assms(2) by (auto simp: patch_lines_def)
  have ne: "patch_lines c \<noteq> []" using c by (rule patch_lines_nonempty)
  have sne: "splitlines c \<noteq> []" using c by (rule splitlines_nonempty)
  have bl: "butlast (patch_lines c) = butlast (splitlines c)"
    using sne by (auto simp: patch_lines_def Let_def)
  consider "l \<in> set (butlast (patch_lines c))" | "l = last (patch_lines c)"
    using assms(2) ne by (metis append_butlast_last_id in_set_conv_decomp_first insert_iff list.set(2) rotate1.simps(2) set_rotate1)
  then show ?thesis
  proof cases
    case 1
    then have m: "l \<in> set (butlast (splitlines c))" using bl by simp
    then have b: "is_linebreak (last l)" by (rule splitlines_butlast_break)
    have ls: "l \<in> set (splitlines c)" using m by (rule in_set_butlastD)
    then have n: "l \<noteq> []" by (rule splitlines_lines_nonempty)
    have "set l \<subseteq> set (concat (splitlines c))" using ls by auto
    then have "last l \<in> set c" using n by (auto simp: splitlines_concat)
    then have "last l = NL" using assms(1) b by (simp add: nl_only_def)
    then show ?thesis using n by (simp add: ends_with_single)
  next
    case 2
    then show ?thesis using patch_lines_last [OF c] by simp
  qed
qed

lemma apply_patch_cases [consumes 1, case_names same delete replace insert_after insert_before append]:
  assumes "apply_patch d (ls, n) = Inr (ls', n')"
  obtains
    (same) "ls' = ls" "n' = n"
  | (delete) i where "line_key d = int i + 1" "i < length ls"
      "ls' = take i ls @ drop (Suc i) ls" "n' = n + 1"
  | (replace) i v where "line_key d = int i + 1" "i < length ls"
      "normalize_pcontent (dget d (lit ''content'') (JStr [])) = Inr v"
      "ls' = ls[i := v]" "n' = n + 1"
  | (insert_after) i v where "line_key d = int i + 1" "i < length ls"
      "normalize_pcontent (dget d (lit ''content'') (JStr [])) = Inr v"
      "ls' = take (Suc i) ls @ v # drop (Suc i) ls" "n' = n + 1"
  | (insert_before) i v where "line_key d = int i + 1" "i < length ls"
      "normalize_pcontent (dget d (lit ''content'') (JStr [])) = Inr v"
      "ls' = take i ls @ v # drop i ls" "n' = n + 1"
  | (append) v where "line_key d = int (length ls) + 1"
      "normalize_pcontent (dget d (lit ''content'') (JStr [])) = Inr v"
      "ls' = ls @ [v]" "n' = n + 1"
proof -
  obtain ln where ln: "py_num (dget d (lit ''line'') (JInt 0)) = Some ln"
    using assms by (auto simp: apply_patch_def split: option.splits)
  then have lk: "line_key d = ln" by (simp add: line_key_def)
  obtain v where v: "normalize_pcontent (dget d (lit ''content'') (JStr [])) = Inr v"
    using assms ln by (auto simp: apply_patch_def Let_def split: sum.splits)
  define a where "a = dget d (lit ''action'') (JStr (lit ''replace''))"
  define i where "i = nat (ln - 1)"
  have eq0: "apply_patch d (ls, n) =
      (if a = JStr (lit ''delete'') then
         (if 0 \<le> ln - 1 \<and> ln - 1 < int (length ls) then
            Inr (take i ls @ drop (Suc i) ls, n + 1)
          else Inr (ls, n))
       else if 0 \<le> ln - 1 \<and> ln - 1 < int (length ls) then
         (if a = JStr (lit ''replace'') then Inr (ls[i := v], n + 1)
          else if a = JStr (lit ''insert_after'') then
            Inr (take (Suc i) ls @ v # drop (Suc i) ls, n + 1)
          else if a = JStr (lit ''insert_before'') then Inr (take i ls @ v # drop i ls, n + 1)
          else Inr (ls, n))
       else if (a = JStr (lit ''insert_after'') \<or> a = JStr (lit ''insert_before'')) \<and> ln - 1 = int (length ls)
         then Inr (ls @ [v], n + 1)
       else Inr (ls, n))"
    by (simp add: apply_patch_def Let_def ln [simplified] v [simplified] a_def i_def)
  note eq = eq0 [unfolded assms, symmetric]
  have in_range: "line_key d = int i + 1 \<and> i < length ls" if "0 \<le> ln - 1 \<and> ln - 1 < int (length ls)"
    using that lk unfolding i_def by (auto simp: nat_less_iff)
  show ?thesis
  proof (cases "0 \<le> ln - 1 \<and> ln - 1 < int (length ls)")
    case True
    note r = in_range [OF True]
    show ?thesis
    proof (cases "a = JStr (lit ''delete'')")
      case True
      then show ?thesis using eq \<open>0 \<le> ln - 1 \<and> ln - 1 < int (length ls)\<close> r delete by simp
    next
      case nd: False
      show ?thesis
      proof (cases "a = JStr (lit ''replace'')")
        case True
        then show ?thesis using eq \<open>0 \<le> ln - 1 \<and> ln - 1 < int (length ls)\<close> r v replace by simp
      next
        case nr: False
        show ?thesis
        proof (cases "a = JStr (lit ''insert_after'')")
          case True
          then show ?thesis
            using eq \<open>0 \<le> ln - 1 \<and> ln - 1 < int (length ls)\<close> r v insert_after by simp
        next
          case na: False
          show ?thesis
          proof (cases "a = JStr (lit ''insert_before'')")
            case True
            then show ?thesis
              using eq \<open>0 \<le> ln - 1 \<and> ln - 1 < int (length ls)\<close> r v insert_before by simp
          next
            case False
            then show ?thesis
              using eq \<open>0 \<le> ln - 1 \<and> ln - 1 < int (length ls)\<close> nd nr na same by simp
          qed
        qed
      qed
    qed
  next
    case False
    show ?thesis
    proof (cases "(a = JStr (lit ''insert_after'') \<or> a = JStr (lit ''insert_before'')) \<and> ln - 1 = int (length ls)")
      case True
      then have "line_key d = int (length ls) + 1" using lk by simp
      moreover have "ls' = ls @ [v] \<and> n' = n + 1" using eq False True by auto
      ultimately show ?thesis using v append by blast
    next
      case na: False
      then have "ls' = ls \<and> n' = n" using eq False by (auto split: if_splits)
      then show ?thesis using same by blast
    qed
  qed
qed

lemma normalize_pcontent_good: "normalize_pcontent v = Inr w \<Longrightarrow> good_line w"
proof (cases v)
  case (JStr s)
  assume a: "normalize_pcontent v = Inr w"
  show ?thesis
  proof (cases "s = []")
    case True
    then have "w = JStr []" using a JStr by (simp add: normalize_pcontent_def)
    then show ?thesis by (simp add: good_line_def)
  next
    case False
    then have "w = JStr (normalized s)" using a JStr normalize_pcontent_str [of s] by simp
    then show ?thesis using normalized_ends [of s] by (simp add: good_line_def)
  qed
next
  case JNull
  assume "normalize_pcontent v = Inr w"
  then have "w = JNull" using JNull by (simp add: normalize_pcontent_def)
  then show ?thesis by (simp add: good_line_def)
next
  case (JBool b)
  assume "normalize_pcontent v = Inr w"
  then have "w = JBool b" using JBool by (simp add: normalize_pcontent_def split: if_splits)
  then show ?thesis by (simp add: good_line_def)
next
  case (JInt k)
  assume "normalize_pcontent v = Inr w"
  then have "w = JInt k" using JInt by (simp add: normalize_pcontent_def split: if_splits)
  then show ?thesis by (simp add: good_line_def)
next
  case (JList xs)
  assume "normalize_pcontent v = Inr w"
  then have "w = JList xs" using JList by (simp add: normalize_pcontent_def split: if_splits)
  then show ?thesis by (simp add: good_line_def)
next
  case (JObj kv)
  assume "normalize_pcontent v = Inr w"
  then have "w = JObj kv" using JObj by (simp add: normalize_pcontent_def split: if_splits)
  then show ?thesis by (simp add: good_line_def)
qed

lemma list_all_update: "list_all P xs \<Longrightarrow> P v \<Longrightarrow> list_all P (xs[i := v])"
  unfolding list_all_iff using set_update_subset_insert [of xs i v] by auto

lemma list_all_take: "list_all P xs \<Longrightarrow> list_all P (take i xs)"
  by (auto simp: list_all_iff dest: in_set_takeD)

lemma list_all_drop: "list_all P xs \<Longrightarrow> list_all P (drop i xs)"
  by (auto simp: list_all_iff dest: in_set_dropD)

lemma apply_patch_good:
  assumes "apply_patch d (ls, n) = Inr (ls', n')" "list_all good_line ls"
  shows "list_all good_line ls'"
  using assms(1)
proof (cases rule: apply_patch_cases)
  case same
  then show ?thesis using assms(2) by simp
next
  case (delete i)
  then show ?thesis using list_all_take [OF assms(2)] list_all_drop [OF assms(2)] by simp
next
  case (replace i v)
  then show ?thesis using list_all_update [OF assms(2)] normalize_pcontent_good by simp
next
  case (insert_after i v)
  then show ?thesis
    using list_all_take [OF assms(2)] list_all_drop [OF assms(2)] normalize_pcontent_good by simp
next
  case (insert_before i v)
  then show ?thesis
    using list_all_take [OF assms(2)] list_all_drop [OF assms(2)] normalize_pcontent_good by simp
next
  case (append v)
  then show ?thesis using assms(2) normalize_pcontent_good by simp
qed

lemma apply_patches_good:
  "apply_patches sp (ls, n) = Inr (ls', n') \<Longrightarrow> list_all good_line ls \<Longrightarrow> list_all good_line ls'"
proof (induction sp arbitrary: ls n)
  case Nil
  then show ?case by simp
next
  case (Cons d sp)
  from Cons.prems(1) obtain l1 n1 where s: "apply_patch d (ls, n) = Inr (l1, n1)"
    and r: "apply_patches sp (l1, n1) = Inr (ls', n')"
    by (auto split: sum.splits)
  show ?case using Cons.IH [OF r] apply_patch_good [OF s] Cons.prems(2) by simp
qed

lemma concat_good:
  "list_all good_line ls \<Longrightarrow> list_all is_str ls \<Longrightarrow>
     concat (map the_str ls) = [] \<or> ends_with [NL] (concat (map the_str ls))"
proof (induction ls rule: rev_induct)
  case Nil
  then show ?case by simp
next
  case (snoc x xs)
  then obtain s where x: "x = JStr s" by (cases x) (auto simp: is_str_def)
  show ?case
  proof (cases "s = []")
    case True
    then show ?thesis using snoc x by (simp add: the_str_def)
  next
    case False
    then have "ends_with [NL] s" using snoc.prems x by (simp add: good_line_def)
    then show ?thesis using x False by (simp add: the_str_def ends_with_single)
  qed
qed

lemma apply_patch_keeps_last:
  assumes "apply_patch d (ls, n) = Inr (ls', n')" "line_key d < int (length ls)" "ls \<noteq> []"
  shows "ls' \<noteq> [] \<and> last ls' = last ls \<and> length ls \<le> Suc (length ls')"
  using assms(1)
proof (cases rule: apply_patch_cases)
  case same
  then show ?thesis using assms(3) by simp
next
  case (delete i)
  then have i: "Suc i < length ls" using assms(2) by simp
  then show ?thesis using delete by (simp add: last_drop)
next
  case (replace i v)
  then have i: "Suc i < length ls" using assms(2) by simp
  then have "i \<noteq> length ls - 1" by simp
  then show ?thesis using replace assms(3) by (simp add: last_list_update)
next
  case (insert_after i v)
  then have i: "Suc i < length ls" using assms(2) by simp
  then show ?thesis using insert_after by (simp add: last_drop)
next
  case (insert_before i v)
  then have i: "Suc i < length ls" using assms(2) by simp
  then show ?thesis using insert_before by (simp add: last_drop)
next
  case (append v)
  then show ?thesis using assms(2) by simp
qed

lemma apply_patches_keeps_last:
  "apply_patches sp (ls, n) = Inr (ls', n') \<Longrightarrow> ls \<noteq> [] \<Longrightarrow>
   sorted_wrt (\<lambda>a b. line_key b < line_key a) sp \<Longrightarrow>
   \<forall>d\<in>set sp. line_key d < int (length ls) \<Longrightarrow>
     ls' \<noteq> [] \<and> last ls' = last ls"
proof (induction sp arbitrary: ls n)
  case Nil
  then show ?case by simp
next
  case (Cons d sp)
  from Cons.prems(1) obtain l1 n1 where s: "apply_patch d (ls, n) = Inr (l1, n1)"
    and r: "apply_patches sp (l1, n1) = Inr (ls', n')"
    by (auto split: sum.splits)
  have k: "l1 \<noteq> [] \<and> last l1 = last ls \<and> length ls \<le> Suc (length l1)"
    using apply_patch_keeps_last [OF s] Cons.prems by simp
  have b: "\<forall>q\<in>set sp. line_key q < int (length l1)"
  proof
    fix q assume q: "q \<in> set sp"
    then have "line_key q < line_key d" using Cons.prems(3) by simp
    moreover have "line_key d < int (length ls)" using Cons.prems(4) by simp
    ultimately show "line_key q < int (length l1)" using k by linarith
  qed
  have w: "sorted_wrt (\<lambda>a b. line_key b < line_key a) sp" using Cons.prems(3) by simp
  show ?case using Cons.IH [OF r _ w b] k by simp
qed

lemma ends_with_concat_last: "xs \<noteq> [] \<Longrightarrow> ends_with (last xs) (concat xs)"
proof -
  assume "xs \<noteq> []"
  then have "concat xs = concat (butlast xs) @ last xs"
    by (metis append_butlast_last_id concat.simps(1) concat.simps(2) concat_append append_Nil2)
  then show ?thesis by (simp add: ends_with_append_self)
qed

lemma join_lines_Inr:
  "join_lines ls = Inr new \<Longrightarrow> list_all is_str ls \<and> new = concat (map the_str ls)"
  by (auto simp: join_lines_def split: if_splits)

lemma patched_content_Inr:
  assumes "patched_content patches c = Inr (new, n)"
  obtains ps sp ls where "py_iter patches = Inr ps" "sorted_patches ps = Inr sp"
    "apply_patches sp (map JStr (patch_lines c), 0) = Inr (ls, n)" "join_lines ls = Inr new"
  using assms
  by (auto simp: patched_content_def patch_loop_def split: sum.splits prod.splits)

lemma sorted_patches_Inr:
  "sorted_patches ps = Inr sp \<Longrightarrow> sp = sort_key (\<lambda>d. - line_key d) (map the_dict ps)"
  by (auto simp: sorted_patches_def split: if_splits)

text \<open>
  Claim C10, as stated, fails: a file written by \<^verbatim>\<open>patch_file\<close> need not end with a newline.
  The content "a", form feed, "b" (which does not end with a newline) splits into the
  lines "a\f" and "b", the form feed being a line boundary of \<^verbatim>\<open>splitlines\<close>; the last line
  gets its newline, the patch \<^verbatim>\<open>{line: 2, action: "delete"}\<close> removes it, and the file
  written is "a\f": not empty, and without a final newline.  The same happens with a line
  separator (\<^verbatim>\<open>U+2028\<close>) in the place of the form feed.
\<close>

theorem patch_file_form_feed_counterexample:
  "patch_file env0 fs_ff call_patch_del2 =
     (Inr (success (lit ''Patched: /g.txt (1 changes)'')),
      fs_ff(lit ''/g.txt'' \<mapsto>
        File \<lparr>st_size = 2, stored = [ord (CHR ''a''), 0x0C], readable = True, writable = True\<rparr>)) \<and>
   \<not> ends_with [NL] [ord (CHR ''a''), 0x0C] \<and>
   patch_file env0 fs_ls call_patch_ls =
     (Inr (success (lit ''Patched: /l.txt (1 changes)'')),
      fs_ls(lit ''/l.txt'' \<mapsto>
        File \<lparr>st_size = 4, stored = [ord (CHR ''a''), 0x2028], readable = True, writable = True\<rparr>)) \<and>
   \<not> ends_with [NL] [ord (CHR ''a''), 0x2028]"
  by (simp add: patch_file_def call_patch_del2_def call_patch_ls_def fs_ff_def fs_ls_def env0_def
        dget_def to_path_def read_text_def py_iter_def patch_eval p_del2_def patch_lines_def
        is_linebreak_def join_lines_def is_str_def the_str_def write_text_def utf8_len_def
        success_def string_of_nat.simps digit_char_def numeral_2_eq_2)

lemma patched_keeps_final_line:
  assumes c: "c \<noteq> []" "\<not> ends_with [NL] c"
    and d: "distinct (map (\<lambda>p. line_key (the_dict p)) ps)"
    and b: "\<forall>p\<in>set ps. line_key (the_dict p) < int (length (splitlines c))"
    and r: "patched_content (JList ps) c = Inr (new, n)"
  shows "ends_with (last (splitlines c) @ [NL]) new"
proof -
  from r obtain ps' sp ls where it: "py_iter (JList ps) = Inr ps'"
    and sp: "sorted_patches ps' = Inr sp"
    and ap: "apply_patches sp (map JStr (patch_lines c), 0) = Inr (ls, n)"
    and jn: "join_lines ls = Inr new"
    by (rule patched_content_Inr)
  have ps': "ps' = ps" using it by (simp add: py_iter_def)
  let ?f = "\<lambda>d. - line_key d"
  have spe: "sp = sort_key ?f (map the_dict ps)" using sp ps' sorted_patches_Inr by simp
  have "map ?f (map the_dict ps) = map uminus (map (\<lambda>p. line_key (the_dict p)) ps)" by simp
  moreover have "inj_on uminus (set (map (\<lambda>p. line_key (the_dict p)) ps))" by (simp add: inj_on_def)
  ultimately have dk: "distinct (map ?f (map the_dict ps))" using d by (metis distinct_map)
  have "mset sp = mset (map the_dict ps)" using spe by simp
  then have "mset (map ?f sp) = mset (map ?f (map the_dict ps))" by (metis mset_map)
  then have dsp: "distinct (map ?f sp)" using dk by (metis mset_eq_imp_distinct_iff)
  have "sorted (map ?f sp)" using spe by simp
  then have "sorted_wrt (<) (map ?f sp)" using dsp by (simp add: strict_sorted_iff)
  then have sw: "sorted_wrt (\<lambda>a b. line_key b < line_key a) sp" by (simp add: sorted_wrt_map)
  have pl: "patch_lines c = butlast (splitlines c) @ [last (splitlines c) @ [NL]]"
    using c by (rule patch_lines_unterminated(1))
  have sne: "splitlines c \<noteq> []" using c(1) by (rule splitlines_nonempty)
  have len: "length (patch_lines c) = length (splitlines c)" using pl sne by simp
  have bd: "\<forall>d\<in>set sp. line_key d < int (length (map JStr (patch_lines c)))"
    using b spe len by auto
  have ne: "map JStr (patch_lines c) \<noteq> []" using pl by simp
  have k: "ls \<noteq> [] \<and> last ls = last (map JStr (patch_lines c))"
    using apply_patches_keeps_last [OF ap ne sw bd] .
  have ll: "last (map JStr (patch_lines c)) = JStr (last (splitlines c) @ [NL])"
    unfolding pl by simp
  have nw: "list_all is_str ls \<and> new = concat (map the_str ls)" using jn by (rule join_lines_Inr)
  have "ends_with (last (map the_str ls)) (concat (map the_str ls))"
    using k by (intro ends_with_concat_last) simp
  moreover have "last (map the_str ls) = last (splitlines c) @ [NL]"
    using k ll by (simp add: last_map the_str_def)
  ultimately show ?thesis using nw by simp
qed

lemma patched_nl_only:
  assumes "nl_only c" "patched_content patches c = Inr (new, n)"
  shows "new = [] \<or> ends_with [NL] new"
proof -
  from assms(2) obtain ps sp ls where
    ap: "apply_patches sp (map JStr (patch_lines c), 0) = Inr (ls, n)"
    and jn: "join_lines ls = Inr new"
    by (rule patched_content_Inr)
  have "list_all good_line (map JStr (patch_lines c))"
    using patch_lines_nl_only [OF assms(1)] by (auto simp: list_all_iff good_line_def)
  then have g: "list_all good_line ls" using apply_patches_good [OF ap] by simp
  have nw: "list_all is_str ls \<and> new = concat (map the_str ls)" using jn by (rule join_lines_Inr)
  then show ?thesis using concat_good [OF g] by simp
qed

lemma universal_newlines_no_CR: "CR \<notin> set (universal_newlines s)"
  by (induction s rule: universal_newlines.induct) auto

lemma nl_only_iff:
  "nl_only c \<longleftrightarrow>
     list_all (\<lambda>x. x \<notin> set [0x0B, 0x0C, CR, 0x1C, 0x1D, 0x1E, 0x85, 0x2028, 0x2029]) c"
  by (auto simp: nl_only_def is_linebreak_def list_all_iff)

text \<open>
  Claim C10, amended.  On an existing file that can be read and written, \<^verbatim>\<open>patch_file\<close>
  writes \<open>patched_content\<close> of the patches and the content read.  When that content is not
  empty and does not end with a newline, a newline is appended to its final line before
  any patch is applied (the lines then join to the content plus a newline), and when the
  patches have pairwise different line numbers, all below the number of lines (no patch
  targets the final line), the text written ends with that final line and its newline.
  When the line feed is the only line-break character of the content read, every text
  written by \<^verbatim>\<open>patch_file\<close> is empty or ends with a newline; that is, when the content holds
  no vertical tab, form feed, carriage return, file, group or record separator, next-line
  character, line separator (\<^verbatim>\<open>U+2028\<close>) or paragraph separator (\<^verbatim>\<open>U+2029\<close>), and a content
  read holds no carriage return.
\<close>

theorem patch_file_newline:
  "(dget call (lit ''path'') (JStr []) = JStr s \<and> s \<noteq> [] \<and> fs (resolve env s) = Some (File f) \<and>
    readable f \<and> writable f \<and> truthy (dget call (lit ''patches'') (JList [])) \<longrightarrow>
      patch_file env fs call =
        (case patched_content (dget call (lit ''patches'') (JList [])) (universal_newlines (stored f)) of
           Inl e \<Rightarrow> (Inl e, fs)
         | Inr (new_content, changes) \<Rightarrow>
             (Inr (success (lit ''Patched: '' @ resolve env s @ lit '' ('' @ string_of_nat changes @
                     lit '' changes)'')),
              fs(resolve env s \<mapsto>
                   File (f\<lparr>st_size := utf8_len new_content, stored := new_content\<rparr>))))) \<and>
   (c \<noteq> [] \<and> \<not> ends_with [NL] c \<longrightarrow>
      patch_lines c = butlast (splitlines c) @ [last (splitlines c) @ [NL]] \<and>
      concat (patch_lines c) = c @ [NL]) \<and>
   (c \<noteq> [] \<and> \<not> ends_with [NL] c \<and> distinct (map (\<lambda>p. line_key (the_dict p)) ps) \<and>
    (\<forall>p\<in>set ps. line_key (the_dict p) < int (length (splitlines c))) \<and>
    patched_content (JList ps) c = Inr (new, n) \<longrightarrow>
      ends_with (last (splitlines c) @ [NL]) new) \<and>
   (nl_only c \<and> patched_content patches c = Inr (new', n') \<longrightarrow>
      new' = [] \<or> ends_with [NL] new') \<and>
   (nl_only c \<longleftrightarrow>
      list_all (\<lambda>x. x \<notin> set [0x0B, 0x0C, CR, 0x1C, 0x1D, 0x1E, 0x85, 0x2028, 0x2029]) c) \<and>
   CR \<notin> set (universal_newlines t)"
proof (intro conjI impI)
  assume "dget call (lit ''path'') (JStr []) = JStr s \<and> s \<noteq> [] \<and> fs (resolve env s) = Some (File f) \<and>
    readable f \<and> writable f \<and> truthy (dget call (lit ''patches'') (JList []))"
  then show "patch_file env fs call =
        (case patched_content (dget call (lit ''patches'') (JList [])) (universal_newlines (stored f)) of
           Inl e \<Rightarrow> (Inl e, fs)
         | Inr (new_content, changes) \<Rightarrow>
             (Inr (success (lit ''Patched: '' @ resolve env s @ lit '' ('' @ string_of_nat changes @
                     lit '' changes)'')),
              fs(resolve env s \<mapsto>
                   File (f\<lparr>st_size := utf8_len new_content, stored := new_content\<rparr>))))"
    using patch_file_link by blast
next
  assume a: "c \<noteq> [] \<and> \<not> ends_with [NL] c"
  then show "patch_lines c = butlast (splitlines c) @ [last (splitlines c) @ [NL]]"
    using patch_lines_unterminated(1) by blast
  from a show "concat (patch_lines c) = c @ [NL]"
    using patch_lines_unterminated(2) by blast
next
  assume "c \<noteq> [] \<and> \<not> ends_with [NL] c \<and> distinct (map (\<lambda>p. line_key (the_dict p)) ps) \<and>
    (\<forall>p\<in>set ps. line_key (the_dict p) < int (length (splitlines c))) \<and>
    patched_content (JList ps) c = Inr (new, n)"
  then show "ends_with (last (splitlines c) @ [NL]) new"
    using patched_keeps_final_line by blast
next
  assume "nl_only c \<and> patched_content patches c = Inr (new', n')"
  then show "new' = [] \<or> ends_with [NL] new'"
    using patched_nl_only by blast
next
  show "nl_only c \<longleftrightarrow>
      list_all (\<lambda>x. x \<notin> set [0x0B, 0x0C, CR, 0x1C, 0x1D, 0x1E, 0x85, 0x2028, 0x2029]) c"
    by (rule nl_only_iff)
next
  show "CR \<notin> set (universal_newlines t)"
    by (rule universal_newlines_no_CR)
qed

lemma patched_ab:
  "patched_content (JList [p_rep1]) [ord (CHR ''a''), NL, ord (CHR ''b'')] =
     Inr ([ord (CHR ''X''), NL, ord (CHR ''b''), NL], 1)"
  by (simp add: patched_content_def py_iter_def patch_eval p_rep1_def patch_lines_def
        is_linebreak_def join_lines_def is_str_def the_str_def)

theorem patch_file_newline_witness:
  "dget call_patch_rep1 (lit ''path'') (JStr []) = JStr (lit ''/h.txt'') \<and>
   truthy (dget call_patch_rep1 (lit ''patches'') (JList [])) \<and>
   \<not> ends_with [NL] [ord (CHR ''a''), NL, ord (CHR ''b'')] \<and>
   nl_only [ord (CHR ''a''), NL, ord (CHR ''b'')] \<and>
   line_key (the_dict p_rep1) < int (length (splitlines [ord (CHR ''a''), NL, ord (CHR ''b'')])) \<and>
   patched_content (JList [p_rep1]) [ord (CHR ''a''), NL, ord (CHR ''b'')] =
     Inr ([ord (CHR ''X''), NL, ord (CHR ''b''), NL], 1) \<and>
   concat (patch_lines [ord (CHR ''a''), NL, ord (CHR ''b'')]) = [ord (CHR ''a''), NL, ord (CHR ''b''), NL] \<and>
   ends_with [ord (CHR ''b''), NL] [ord (CHR ''X''), NL, ord (CHR ''b''), NL] \<and>
   ends_with [NL] [ord (CHR ''X''), NL, ord (CHR ''b''), NL] \<and>
   patch_file env0 fs_ab call_patch_rep1 =
     (Inr (success (lit ''Patched: /h.txt (1 changes)'')),
      fs_ab(lit ''/h.txt'' \<mapsto>
        File \<lparr>st_size = 4, stored = [ord (CHR ''X''), NL, ord (CHR ''b''), NL],
              readable = True, writable = True\<rparr>))"
proof -
  let ?f = "\<lparr>st_size = 3, stored = [ord (CHR ''a''), NL, ord (CHR ''b'')], readable = True, writable = True\<rparr>"
  let ?c = "[ord (CHR ''a''), NL, ord (CHR ''b'')]"
  let ?new = "[ord (CHR ''X''), NL, ord (CHR ''b''), NL]"
  have h1: "dget call_patch_rep1 (lit ''path'') (JStr []) = JStr (lit ''/h.txt'') \<and> lit ''/h.txt'' \<noteq> [] \<and>
      fs_ab (resolve env0 (lit ''/h.txt'')) = Some (File ?f) \<and> readable ?f \<and> writable ?f \<and>
      truthy (dget call_patch_rep1 (lit ''patches'') (JList []))"
    by (simp add: call_patch_rep1_def dget_def fs_ab_def env0_def)
  have pt: "dget call_patch_rep1 (lit ''patches'') (JList []) = JList [p_rep1]"
    by (simp add: call_patch_rep1_def dget_def)
  have un: "universal_newlines (stored ?f) = ?c" by simp
  have h2: "?c \<noteq> [] \<and> \<not> ends_with [NL] ?c" by (simp add: ends_with_def)
  have sl: "splitlines ?c = [[ord (CHR ''a''), NL], [ord (CHR ''b'')]]" by (simp add: is_linebreak_def)
  have lk: "line_key (the_dict p_rep1) = 1" by (simp add: patch_eval p_rep1_def)
  have h3: "?c \<noteq> [] \<and> \<not> ends_with [NL] ?c \<and>
      distinct (map (\<lambda>p. line_key (the_dict p)) [p_rep1]) \<and>
      (\<forall>p\<in>set [p_rep1]. line_key (the_dict p) < int (length (splitlines ?c))) \<and>
      patched_content (JList [p_rep1]) ?c = Inr (?new, 1)"
    using h2 patched_ab by (simp add: lk is_linebreak_def ends_with_def)
  have h4: "nl_only ?c \<and> patched_content (JList [p_rep1]) ?c = Inr (?new, 1)"
    using patched_ab by (simp add: nl_only_def is_linebreak_def)
  from patch_file_newline [where call = call_patch_rep1 and s = "lit ''/h.txt''" and fs = fs_ab
      and env = env0 and f = ?f and c = ?c and ps = "[p_rep1]" and new = ?new and n = 1
      and patches = "JList [p_rep1]" and new' = ?new and n' = 1] h1 h2 h3 h4
  have main: "patch_file env0 fs_ab call_patch_rep1 =
        (case patched_content (dget call_patch_rep1 (lit ''patches'') (JList []))
                (universal_newlines (stored ?f)) of
           Inl e \<Rightarrow> (Inl e, fs_ab)
         | Inr (new_content, changes) \<Rightarrow>
             (Inr (success (lit ''Patched: '' @ resolve env0 (lit ''/h.txt'') @ lit '' ('' @
                     string_of_nat changes @ lit '' changes)'')),
              fs_ab(resolve env0 (lit ''/h.txt'') \<mapsto>
                   File (?f\<lparr>st_size := utf8_len new_content, stored := new_content\<rparr>)))) \<and>
      concat (patch_lines ?c) = ?c @ [NL] \<and>
      ends_with (last (splitlines ?c) @ [NL]) ?new \<and>
      (?new = [] \<or> ends_with [NL] ?new)"
    by blast
  have r0: "resolve env0 (lit ''/h.txt'') = lit ''/h.txt''" by (simp add: env0_def)
  have n1: "string_of_nat (Suc 0) = lit ''1''" by (simp add: string_of_nat.simps digit_char_def)
  have u: "utf8_len ?new = 4" by (simp add: utf8_len_def)
  have pf: "patch_file env0 fs_ab call_patch_rep1 =
     (Inr (success (lit ''Patched: /h.txt (1 changes)'')),
      fs_ab(lit ''/h.txt'' \<mapsto>
        File \<lparr>st_size = 4, stored = ?new, readable = True, writable = True\<rparr>))"
    using main n1 u unfolding pt un patched_ab r0 by simp
  show ?thesis
    using main h1 h2 h4 pf patched_ab by (simp add: lk is_linebreak_def ends_with_def)
qed

subsection \<open>Failover over the credentials\<close>

lemma estimate_tokens_sized: "(\<exists>n. estimate_tokens v = Inr n) \<longleftrightarrow> sized v"
  by (cases v) (auto simp: estimate_tokens_def sized_def)

lemma read_choice_success:
  "(\<exists>c n. read_choice data = Inr (Some (c, n))) \<longleftrightarrow> well_formed_body (Some data)"
proof (cases data)
  case (JObj d)
  show ?thesis
  proof (cases "dget d (lit ''choices'') JNull")
    case (JList xs)
    show ?thesis
    proof (cases xs)
      case Nil
      then show ?thesis using JObj JList
        by (simp add: read_choice_def get_of_def well_formed_body_def)
    next
      case (Cons x rest)
      show ?thesis
      proof (cases x)
        case cd: (JObj cd)
        show ?thesis
        proof (cases "dget cd (lit ''message'') (JObj [])")
          case md: (JObj md)
          have "(\<exists>c n. read_choice data = Inr (Some (c, n))) \<longleftrightarrow>
                (\<exists>n. estimate_tokens (dget md (lit ''content'') (JStr [])) = Inr n)"
            using JObj JList Cons cd md
            by (auto simp: read_choice_def get_of_def first_item_def split: sum.splits)
          then show ?thesis using JObj JList Cons cd md
            by (simp add: estimate_tokens_sized well_formed_body_def)
        qed (use JObj JList Cons cd in
             \<open>simp_all add: read_choice_def get_of_def first_item_def well_formed_body_def\<close>)
      qed (use JObj JList Cons in
           \<open>simp_all add: read_choice_def get_of_def first_item_def well_formed_body_def\<close>)
    qed
  next
    case (JStr s)
    then show ?thesis using JObj
      by (cases s) (simp_all add: read_choice_def get_of_def first_item_def well_formed_body_def)
  qed (use JObj in
       \<open>auto simp: read_choice_def get_of_def first_item_def well_formed_body_def split: if_splits\<close>)
qed (simp_all add: read_choice_def get_of_def well_formed_body_def)

lemma attempt_success_iff:
  "(\<exists>r. attempt env model i answer = Inr r) \<longleftrightarrow>
     (\<exists>resp. answer = Inr resp \<and> http_ok resp \<and> well_formed_body (body resp))"
proof (cases answer)
  case (Inl e)
  then show ?thesis by (simp add: attempt_def)
next
  case (Inr resp)
  show ?thesis
  proof (cases "http_ok resp")
    case False
    then show ?thesis using Inr by (simp add: attempt_def)
  next
    case True
    show ?thesis
    proof (cases "body resp")
      case None
      then show ?thesis using Inr True by (simp add: attempt_def well_formed_body_def)
    next
      case (Some data)
      have "(\<exists>r. attempt env model i answer = Inr r) \<longleftrightarrow>
            (\<exists>c n. read_choice data = Inr (Some (c, n)))"
        using Inr True Some
        by (auto simp: attempt_def split: sum.splits option.splits)
      then show ?thesis using Inr True Some read_choice_success [of data] by simp
    qed
  qed
qed

lemma try_keys_first_success:
  "j < length keys \<Longrightarrow> length errs = j \<Longrightarrow>
   \<forall>k<j. attempt env model (i + k) (post env (i + k) (keys ! k) msgs) = Inl (errs ! k) \<Longrightarrow>
   attempt env model (i + j) (post env (i + j) (keys ! j) msgs) = Inr r \<Longrightarrow>
     try_keys env model msgs i keys errors = (errors @ errs, Some r)"
proof (induction keys arbitrary: i j errs errors)
  case Nil
  then show ?case by simp
next
  case (Cons key keys)
  show ?case
  proof (cases j)
    case 0
    then show ?thesis using Cons.prems by simp
  next
    case (Suc j')
    then obtain e errs' where errs: "errs = e # errs'" "length errs' = j'"
      using Cons.prems(2) by (cases errs) auto
    have a0: "attempt env model i (post env i key msgs) = Inl e"
      using Cons.prems(3) [rule_format, of 0] Suc errs by simp
    have rest: "\<forall>k<j'. attempt env model (i + 1 + k) (post env (i + 1 + k) (keys ! k) msgs) =
        Inl (errs' ! k)"
    proof (intro allI impI)
      fix k assume "k < j'"
      then show "attempt env model (i + 1 + k) (post env (i + 1 + k) (keys ! k) msgs) = Inl (errs' ! k)"
        using Cons.prems(3) [rule_format, of "Suc k"] Suc errs by simp
    qed
    have last: "attempt env model (i + 1 + j') (post env (i + 1 + j') (keys ! j') msgs) = Inr r"
      using Cons.prems(4) Suc by simp
    have "j' < length keys" using Cons.prems(1) Suc by simp
    from Cons.IH [OF this errs(2) rest last, of "errors @ [e]"]
    show ?thesis using a0 errs by simp
  qed
qed

lemma try_keys_all_fail:
  "length errs = length keys \<Longrightarrow>
   \<forall>k<length keys. attempt env model (i + k) (post env (i + k) (keys ! k) msgs) = Inl (errs ! k) \<Longrightarrow>
     try_keys env model msgs i keys errors = (errors @ errs, None)"
proof (induction keys arbitrary: i errs errors)
  case Nil
  then show ?case by simp
next
  case (Cons key keys)
  then obtain e errs' where errs: "errs = e # errs'" "length errs' = length keys"
    by (cases errs) auto
  have a0: "attempt env model i (post env i key msgs) = Inl e"
    using Cons.prems(2) [rule_format, of 0] errs by simp
  have rest: "\<forall>k<length keys. attempt env model (i + 1 + k) (post env (i + 1 + k) (keys ! k) msgs) =
      Inl (errs' ! k)"
  proof (intro allI impI)
    fix k assume "k < length keys"
    then show "attempt env model (i + 1 + k) (post env (i + 1 + k) (keys ! k) msgs) = Inl (errs' ! k)"
      using Cons.prems(2) [rule_format, of "Suc k"] errs by simp
  qed
  from Cons.IH [OF errs(2) rest, of "errors @ [e]"]
  show ?case using a0 errs by simp
qed

lemma attempt_failure_label:
  "attempt env model i answer = Inl err \<Longrightarrow> starts_with (key_label i) err"
  by (auto simp: attempt_def starts_with_def split: sum.splits option.splits if_splits prod.splits)

lemma attempt_failure_kinds:
  "attempt env model i (Inl RequestTimeout) = Inl (key_label i @ lit ''Timeout'')"
  "attempt env model i (Inl RequestConnectionError) = Inl (key_label i @ lit ''Connection failed'')"
  "\<not> http_ok resp \<Longrightarrow>
     attempt env model i (Inr resp) = Inl (key_label i @ lit ''HTTP '' @ string_of_int (status_code resp))"
  "http_ok resp \<Longrightarrow> body resp = None \<Longrightarrow>
     attempt env model i (Inr resp) = Inl (key_label i @ lit ''Malformed JSON'')"
  by (simp_all add: attempt_def)

text \<open>
  Claim C3, as stated, fails: a successful response whose body contains a non-empty
  \<^verbatim>\<open>choices\<close> list need not be a success.  On the body \<^verbatim>\<open>{"choices": [5]}\<close> the expression
  \<^verbatim>\<open>data["choices"][0].get(...)\<close> raises \<^verbatim>\<open>AttributeError\<close>, which the outer handler records
  as the error of this key; the attempt has failed.
\<close>

theorem choices_list_counterexample:
  "http_ok resp_choices_5 \<and>
   body resp_choices_5 = Some (JObj [(lit ''choices'', JList [JInt 5])]) \<and>
   truthy (JList [JInt 5]) \<and>
   attempt env0 (lit ''GPT-5.2-Codex'') 0 (Inr resp_choices_5) = Inl (lit ''Key 1: error'')"
  by (simp add: resp_choices_5_def attempt_def read_choice_def get_of_def dget_def first_item_def
        key_label_def env0_def string_of_nat.simps digit_char_def)

lemma example_three_keys:
  "try_keys env3 (lit ''GPT-5.2-Codex'') conv1 0 keys3 [] =
     ([lit ''Key 1: HTTP 500'', lit ''Key 2: HTTP 500''],
      Some [(lit ''ok'', JBool True), (lit ''content'', JStr (lit ''hello'')), (lit ''model'', JStr (lit ''GPT-5.2-Codex'')),
            (lit ''tokens'', JInt 1)])"
  by (simp add: keys3_def env3_def env0_def attempt_def reply_def read_choice_def get_of_def dget_def
        first_item_def estimate_tokens_def key_label_def string_of_nat.simps digit_char_def
        string_of_int_def)

lemma example_three_keys_chat:
  "chat_poe env3 keys3 settings0 conv1 =
     Inr [(lit ''ok'', JBool True), (lit ''content'', JStr (lit ''hello'')), (lit ''model'', JStr (lit ''GPT-5.2-Codex'')),
          (lit ''tokens'', JInt 1)]"
proof -
  have a: "augment env3 settings0 conv1 = Inr conv1"
    by (simp add: augment_def settings0_def conv1_def)
  have m: "model_name (model_key settings0) = lit ''GPT-5.2-Codex''"
    by (simp add: model_name_def MODELS_def settings0_def)
  have k: "keys3 \<noteq> []" by (simp add: keys3_def)
  show ?thesis using example_three_keys by (simp add: chat_poe_def a m k)
qed

text \<open>
  Claim C3, amended.  The remote backend client tries the credentials in list order: when
  the attempts before the \<open>j\<close>-th fail and the \<open>j\<close>-th succeeds, the call returns the result
  of the \<open>j\<close>-th with exactly the errors of the earlier ones recorded, in order; when all
  attempts fail, every one has its error recorded and there is no result.  An attempt
  succeeds exactly when the HTTP response is successful and its body holds a well-formed
  choice list (\<open>well_formed_body\<close>).  Every failed attempt is recorded as one string that
  starts with the label of its credential ("Key 1: ", "Key 2: ", ...), a timeout as
  "Timeout", a connection failure as "Connection failed", a non-success status as
  "HTTP" and the status code, and a body that is not JSON as "Malformed JSON".  With three
  credentials of which the first two get HTTP 500 and the third a valid choice, the call
  succeeds with the third and exactly two errors have been recorded.
\<close>

theorem chat_poe_failover:
  "(j < length keys \<and> length errs = j \<and>
    (\<forall>k<j. attempt env model k (post env k (keys ! k) msgs) = Inl (errs ! k)) \<and>
    attempt env model j (post env j (keys ! j) msgs) = Inr r \<longrightarrow>
      try_keys env model msgs 0 keys [] = (errs, Some r)) \<and>
   (length errs = length keys \<and>
    (\<forall>k<length keys. attempt env model k (post env k (keys ! k) msgs) = Inl (errs ! k)) \<longrightarrow>
      try_keys env model msgs 0 keys [] = (errs, None)) \<and>
   ((\<exists>res. attempt env model i answer = Inr res) \<longleftrightarrow>
      (\<exists>resp. answer = Inr resp \<and> http_ok resp \<and> well_formed_body (body resp))) \<and>
   (attempt env model i answer = Inl err \<longrightarrow> starts_with (key_label i) err) \<and>
   attempt env model i (Inl RequestTimeout) = Inl (key_label i @ lit ''Timeout'') \<and>
   attempt env model i (Inl RequestConnectionError) = Inl (key_label i @ lit ''Connection failed'') \<and>
   (\<not> http_ok resp \<longrightarrow>
      attempt env model i (Inr resp) =
        Inl (key_label i @ lit ''HTTP '' @ string_of_int (status_code resp))) \<and>
   (http_ok resp \<and> body resp = None \<longrightarrow>
      attempt env model i (Inr resp) = Inl (key_label i @ lit ''Malformed JSON'')) \<and>
   try_keys env3 (lit ''GPT-5.2-Codex'') conv1 0 keys3 [] =
     ([lit ''Key 1: HTTP 500'', lit ''Key 2: HTTP 500''],
      Some [(lit ''ok'', JBool True), (lit ''content'', JStr (lit ''hello'')), (lit ''model'', JStr (lit ''GPT-5.2-Codex'')),
            (lit ''tokens'', JInt 1)]) \<and>
   chat_poe env3 keys3 settings0 conv1 =
     Inr [(lit ''ok'', JBool True), (lit ''content'', JStr (lit ''hello'')), (lit ''model'', JStr (lit ''GPT-5.2-Codex'')),
          (lit ''tokens'', JInt 1)]"
proof (intro conjI impI)
  assume "j < length keys \<and> length errs = j \<and>
    (\<forall>k<j. attempt env model k (post env k (keys ! k) msgs) = Inl (errs ! k)) \<and>
    attempt env model j (post env j (keys ! j) msgs) = Inr r"
  then show "try_keys env model msgs 0 keys [] = (errs, Some r)"
    using try_keys_first_success [of j keys errs env model 0 msgs r "[]"] by simp
next
  assume "length errs = length keys \<and>
    (\<forall>k<length keys. attempt env model k (post env k (keys ! k) msgs) = Inl (errs ! k))"
  then show "try_keys env model msgs 0 keys [] = (errs, None)"
    using try_keys_all_fail [of errs keys env model 0 msgs "[]"] by simp
next
  show "(\<exists>res. attempt env model i answer = Inr res) \<longleftrightarrow>
      (\<exists>resp. answer = Inr resp \<and> http_ok resp \<and> well_formed_body (body resp))"
    by (rule attempt_success_iff)
next
  assume "attempt env model i answer = Inl err"
  then show "starts_with (key_label i) err" by (rule attempt_failure_label)
next
  show "attempt env model i (Inl RequestTimeout) = Inl (key_label i @ lit ''Timeout'')"
    by (rule attempt_failure_kinds)
next
  show "attempt env model i (Inl RequestConnectionError) = Inl (key_label i @ lit ''Connection failed'')"
    by (rule attempt_failure_kinds)
next
  assume "\<not> http_ok resp"
  then show "attempt env model i (Inr resp) =
        Inl (key_label i @ lit ''HTTP '' @ string_of_int (status_code resp))"
    by (rule attempt_failure_kinds)
next
  assume "http_ok resp \<and> body resp = None"
  then show "attempt env model i (Inr resp) = Inl (key_label i @ lit ''Malformed JSON'')"
    using attempt_failure_kinds(4) by blast
next
  show "try_keys env3 (lit ''GPT-5.2-Codex'') conv1 0 keys3 [] =
     ([lit ''Key 1: HTTP 500'', lit ''Key 2: HTTP 500''],
      Some [(lit ''ok'', JBool True), (lit ''content'', JStr (lit ''hello'')), (lit ''model'', JStr (lit ''GPT-5.2-Codex'')),
            (lit ''tokens'', JInt 1)])"
    by (rule example_three_keys)
next
  show "chat_poe env3 keys3 settings0 conv1 =
     Inr [(lit ''ok'', JBool True), (lit ''content'', JStr (lit ''hello'')), (lit ''model'', JStr (lit ''GPT-5.2-Codex'')),
          (lit ''tokens'', JInt 1)]"
    by (rule example_three_keys_chat)
qed

lemmas attempt_eval =
  attempt_def reply_def read_choice_def get_of_def dget_def first_item_def estimate_tokens_def
  key_label_def string_of_nat.simps digit_char_def string_of_int_def

theorem chat_poe_failover_witness:
  "attempt env3 (lit ''GPT-5.2-Codex'') 0 (post env3 0 (keys3 ! 0) conv1) = Inl (lit ''Key 1: HTTP 500'') \<and>
   attempt env3 (lit ''GPT-5.2-Codex'') 1 (post env3 1 (keys3 ! 1) conv1) = Inl (lit ''Key 2: HTTP 500'') \<and>
   attempt env3 (lit ''GPT-5.2-Codex'') 2 (post env3 2 (keys3 ! 2) conv1) =
     Inr [(lit ''ok'', JBool True), (lit ''content'', JStr (lit ''hello'')), (lit ''model'', JStr (lit ''GPT-5.2-Codex'')),
          (lit ''tokens'', JInt 1)] \<and>
   try_keys env3 (lit ''GPT-5.2-Codex'') conv1 0 keys3 [] =
     ([lit ''Key 1: HTTP 500'', lit ''Key 2: HTTP 500''],
      Some [(lit ''ok'', JBool True), (lit ''content'', JStr (lit ''hello'')), (lit ''model'', JStr (lit ''GPT-5.2-Codex'')),
            (lit ''tokens'', JInt 1)]) \<and>
   attempt env0 (lit ''GPT-5.2-Codex'') 0 (post env0 0 ([lit ''k1''] ! 0) conv1) =
     Inl (lit ''Key 1: Connection failed'') \<and>
   try_keys env0 (lit ''GPT-5.2-Codex'') conv1 0 [lit ''k1''] [] = ([lit ''Key 1: Connection failed''], None) \<and>
   http_ok (reply (lit ''hello'')) \<and> well_formed_body (body (reply (lit ''hello''))) \<and>
   attempt env0 (lit ''GPT-5.2-Codex'') 0 (Inl RequestTimeout) = Inl (lit ''Key 1: Timeout'') \<and>
   starts_with (key_label 0) (lit ''Key 1: Timeout'') \<and>
   attempt env0 (lit ''GPT-5.2-Codex'') 0 (Inr \<lparr>http_ok = False, status_code = 500, body = None\<rparr>) =
     Inl (lit ''Key 1: HTTP 500'') \<and>
   attempt env0 (lit ''GPT-5.2-Codex'') 0 (Inr \<lparr>http_ok = True, status_code = 200, body = None\<rparr>) =
     Inl (lit ''Key 1: Malformed JSON'')"
proof -
  let ?M = "lit ''GPT-5.2-Codex''"
  let ?res = "[(lit ''ok'', JBool True), (lit ''content'', JStr (lit ''hello'')), (lit ''model'', JStr ?M),
               (lit ''tokens'', JInt 1)]"
  let ?errs = "[lit ''Key 1: HTTP 500'', lit ''Key 2: HTTP 500'']"
  let ?r500 = "\<lparr>http_ok = False, status_code = 500, body = None\<rparr>"
  let ?rnone = "\<lparr>http_ok = True, status_code = 200, body = None\<rparr>"
  have a0: "attempt env3 ?M 0 (post env3 0 (keys3 ! 0) conv1) = Inl (lit ''Key 1: HTTP 500'')"
    by (simp add: keys3_def env3_def env0_def attempt_eval)
  have a1: "attempt env3 ?M 1 (post env3 1 (keys3 ! 1) conv1) = Inl (lit ''Key 2: HTTP 500'')"
    by (simp add: keys3_def env3_def env0_def attempt_eval)
  have a2: "attempt env3 ?M 2 (post env3 2 (keys3 ! 2) conv1) = Inr ?res"
    by (simp add: keys3_def env3_def env0_def attempt_eval)
  have all2: "\<forall>k<2. attempt env3 ?M k (post env3 k (keys3 ! k) conv1) = Inl (?errs ! k)"
  proof (intro allI impI)
    fix k :: nat assume "k < 2"
    then have "k = 0 \<or> k = 1" by auto
    then show "attempt env3 ?M k (post env3 k (keys3 ! k) conv1) = Inl (?errs ! k)"
      using a0 a1 by auto
  qed
  have h1: "2 < length keys3 \<and> length ?errs = 2 \<and>
      (\<forall>k<2. attempt env3 ?M k (post env3 k (keys3 ! k) conv1) = Inl (?errs ! k)) \<and>
      attempt env3 ?M 2 (post env3 2 (keys3 ! 2) conv1) = Inr ?res"
    using all2 a2 by (simp add: keys3_def)
  have b0: "attempt env0 ?M 0 (post env0 0 ([lit ''k1''] ! 0) conv1) = Inl (lit ''Key 1: Connection failed'')"
    by (simp add: env0_def attempt_eval)
  have h2: "length [lit ''Key 1: Connection failed''] = length [lit ''k1''] \<and>
      (\<forall>k<length [lit ''k1'']. attempt env0 ?M k (post env0 k ([lit ''k1''] ! k) conv1) =
         Inl ([lit ''Key 1: Connection failed''] ! k))"
    using b0 by simp
  have wf: "http_ok (reply (lit ''hello'')) \<and> well_formed_body (body (reply (lit ''hello'')))"
    by (simp add: reply_def well_formed_body_def dget_def sized_def)
  have t: "attempt env0 ?M 0 (Inl RequestTimeout) = Inl (lit ''Key 1: Timeout'')"
    by (simp add: attempt_eval)
  have t3: "attempt env3 ?M 0 (Inl RequestTimeout) = Inl (lit ''Key 1: Timeout'')"
    by (simp add: attempt_eval)
  have kl: "key_label 0 = lit ''Key 1: ''" by (simp add: attempt_eval)
  have si: "string_of_int 500 = lit ''500''" by (simp add: attempt_eval)
  from chat_poe_failover [where j = 2 and keys = keys3 and errs = ?errs and env = env3
      and model = ?M and msgs = conv1 and r = ?res and i = 0 and answer = "Inl RequestTimeout"
      and err = "lit ''Key 1: Timeout''" and resp = ?r500] h1 t3
  have p1: "try_keys env3 ?M conv1 0 keys3 [] = (?errs, Some ?res) \<and>
      starts_with (key_label 0) (lit ''Key 1: Timeout'') \<and>
      attempt env3 ?M 0 (Inr ?r500) = Inl (key_label 0 @ lit ''HTTP '' @ string_of_int (status_code ?r500))"
    by simp
  from chat_poe_failover [where keys = "[lit ''k1'']" and errs = "[lit ''Key 1: Connection failed'']"
      and env = env0 and model = ?M and msgs = conv1 and i = 0 and resp = ?rnone] h2
  have p2: "try_keys env0 ?M conv1 0 [lit ''k1''] [] = ([lit ''Key 1: Connection failed''], None) \<and>
      attempt env0 ?M 0 (Inr ?rnone) = Inl (key_label 0 @ lit ''Malformed JSON'')"
    by simp
  have c500: "attempt env0 ?M 0 (Inr ?r500) = Inl (lit ''Key 1: HTTP 500'')"
    by (simp add: attempt_eval)
  show ?thesis
    using a0 a1 a2 b0 wf t p1 p2 c500 by (simp add: kl)
qed

subsection \<open>Order and deduplication of the extracted calls\<close>





lemma first_raised_append:
  "first_raised ld dp (xs @ ys) =
     (case first_raised ld dp xs of Some e \<Rightarrow> Some e | None \<Rightarrow> first_raised ld dp ys)"
  by (induction xs) (auto split: option.splits)

































end
